theory Spec2Isabelle
  imports Complex_Main "HOL-Library.Sublist" "HOL-Library.Log_Nat" "HOL-Library.Char_ord"
begin

section \<open>JavaScript values used by the study companion\<close>

text \<open>
  The component \<^verbatim>\<open>study_companion_app.jsx\<close> works on strings, arrays of strings and a
  few plain objects. A JavaScript string is a sequence of UTF-16 code units; here it is a
  \<^typ>\<open>string\<close>, each \<^typ>\<open>char\<close> standing for one code unit in the range U+0000 to
  U+00FF, so that \<open>length\<close> is the \<^verbatim>\<open>.length\<close> of the source. A value that may be
  \<^verbatim>\<open>undefined\<close> (an array read out of range, an omitted argument) is a
  \<^typ>\<open>string option\<close> with \<open>None\<close> for \<^verbatim>\<open>undefined\<close>.
\<close>

type_synonym jsval = "string option"

definition code_unit :: "char \<Rightarrow> nat" where
  "code_unit c = of_char c"

definition in_range :: "char \<Rightarrow> char \<Rightarrow> char \<Rightarrow> bool" where
  "in_range lo hi c \<longleftrightarrow> code_unit lo \<le> code_unit c \<and> code_unit c \<le> code_unit hi"

text \<open>\<^verbatim>\<open>xs[i]\<close>: reading an array outside its bounds gives \<^verbatim>\<open>undefined\<close>.\<close>

definition js_index :: "'a list \<Rightarrow> nat \<Rightarrow> 'a option" where
  "js_index xs i = (if i < length xs then Some (xs ! i) else None)"

text \<open>\<^verbatim>\<open>v || d\<close> on a string or \<^verbatim>\<open>undefined\<close>: both \<^verbatim>\<open>undefined\<close> and the
  empty string are falsy.\<close>

definition js_or :: "jsval \<Rightarrow> string \<Rightarrow> string" where
  "js_or v d = (case v of None \<Rightarrow> d | Some s \<Rightarrow> if s = [] then d else s)"

text \<open>\<^verbatim>\<open>text.slice(0, n)\<close> for an integer \<open>n\<close>: a negative end counts from the end of
  the string, and the end is clamped to the string.\<close>

definition js_slice0 :: "string \<Rightarrow> int \<Rightarrow> string" where
  "js_slice0 text n =
     (let len = int (length text);
          final = (if n < 0 then max (len + n) 0 else min n len)
      in take (nat final) text)"

text \<open>\<^verbatim>\<open>S.substring(p, q)\<close> for \<open>p \<le> q \<le> length S\<close>.\<close>

definition substring :: "string \<Rightarrow> nat \<Rightarrow> nat \<Rightarrow> string" where
  "substring S p q = take (q - p) (drop p S)"

text \<open>\<^verbatim>\<open>toLowerCase\<close> on the code units U+0000 to U+00FF: the letters A to Z and the
  accented capitals U+00C0 to U+00DE (the multiplication sign U+00D7 apart) move up by 32.\<close>

definition toLowerCase_unit :: "char \<Rightarrow> char" where
  "toLowerCase_unit c =
     (if in_range CHR ''A'' CHR ''Z'' c \<or> (in_range (CHR 0xC0) (CHR 0xDE) c \<and> c \<noteq> CHR 0xD7)
      then char_of (code_unit c + 32) else c)"

definition toLowerCase :: "string \<Rightarrow> string" where
  "toLowerCase s = map toLowerCase_unit s"

text \<open>\<^verbatim>\<open>hay.includes(needle)\<close>: the needle occurs at some position of the string.\<close>

fun js_includes :: "string \<Rightarrow> string \<Rightarrow> bool" where
  "js_includes [] needle = (needle = [])"
| "js_includes (c # cs) needle = (prefix needle (c # cs) \<or> js_includes cs needle)"

text \<open>The white space of \<^verbatim>\<open>\s\<close> and of \<^verbatim>\<open>trim\<close> below U+0100: tab, line feed,
  vertical tab, form feed, carriage return, space and the no-break space.\<close>

definition is_space :: "char \<Rightarrow> bool" where
  "is_space c \<longleftrightarrow> c \<in> set [CHR 0x09, CHR 0x0A, CHR 0x0B, CHR 0x0C, CHR 0x0D, CHR 0x20, CHR 0xA0]"

definition trim :: "string \<Rightarrow> string" where
  "trim s = rev (dropWhile is_space (rev (dropWhile is_space s)))"

section \<open>The random source and the clock\<close>

text \<open>
  \<^verbatim>\<open>Math.random()\<close> and \<^verbatim>\<open>Date.now()\<close> are inputs of the program. The environment
  holds the values that their successive calls will return; a call takes the first one and
  leaves the rest. \<^verbatim>\<open>toISOString\<close> is kept as a function of the environment.
\<close>

record env =
  random :: "nat \<Rightarrow> real"
  now :: "nat \<Rightarrow> int"
  toISOString :: "int \<Rightarrow> string"

definition math_random :: "env \<Rightarrow> real \<times> env" where
  "math_random e = (random e 0, e\<lparr>random := (\<lambda>i. random e (Suc i))\<rparr>)"

definition date_now :: "env \<Rightarrow> int \<times> env" where
  "date_now e = (now e 0, e\<lparr>now := (\<lambda>i. now e (Suc i))\<rparr>)"

subsection \<open>Numbers\<close>

text \<open>
  A JavaScript number is a double: a real \<open>m * 2 ^ e\<close> with an integer \<open>m\<close> of at most 53
  bits and \<open>e \<ge> - 1074\<close>. An arithmetic operation returns the double nearest to the exact
  result, the one with the even \<open>m\<close> when two are equally near. Numbers are reals here, and
  \<open>round_double\<close> is that rounding (for results below \<open>2 ^ 1024\<close>, where no overflow
  occurs): \<open>binary_exponent x\<close> is the \<open>e\<close> with \<open>2 ^ e \<le> x < 2 ^ (e + 1)\<close>, and \<open>ulp x\<close> the
  distance between the doubles around \<open>x\<close>.
\<close>

definition binary_exponent :: "real \<Rightarrow> int" where
  "binary_exponent x = (if 1 \<le> x then bitlen \<lfloor>x\<rfloor> - 1 else - bitlen (\<lceil>1 / x\<rceil> - 1))"

definition ulp :: "real \<Rightarrow> real" where
  "ulp x = 2 powi (max (binary_exponent x) (- 1022) - 52)"

definition round_half_even :: "real \<Rightarrow> int" where
  "round_half_even q =
     (if q - of_int \<lfloor>q\<rfloor> < 1 / 2 then \<lfloor>q\<rfloor>
      else if 1 / 2 < q - of_int \<lfloor>q\<rfloor> then \<lfloor>q\<rfloor> + 1
      else if even \<lfloor>q\<rfloor> then \<lfloor>q\<rfloor> else \<lfloor>q\<rfloor> + 1)"

definition round_double :: "real \<Rightarrow> real" where
  "round_double x =
     (if x = 0 then 0
      else sgn x * (of_int (round_half_even (\<bar>x\<bar> / ulp \<bar>x\<bar>)) * ulp \<bar>x\<bar>))"

definition is_double :: "real \<Rightarrow> bool" where
  "is_double x \<longleftrightarrow> round_double x = x"

text \<open>
  \<^verbatim>\<open>Math.random()\<close> returns a double \<open>r\<close> with \<open>0 \<le> r < 1\<close>, which \<open>unit_draws\<close> states for
  every draw of the environment.
\<close>

definition unit_draws :: "env \<Rightarrow> bool" where
  "unit_draws e \<longleftrightarrow> (\<forall>i. is_double (random e i) \<and> 0 \<le> random e i \<and> random e i < 1)"

text \<open>
  \<^verbatim>\<open>Math.floor(r * n)\<close> for a length \<open>n\<close> (an integer below \<open>2 ^ 32\<close>, itself a double): the
  product is rounded to a double before the floor is taken.
\<close>

definition floor_scaled :: "real \<Rightarrow> nat \<Rightarrow> nat" where
  "floor_scaled r n = nat \<lfloor>round_double (r * real n)\<rfloor>"

section \<open>Helper functions of the component\<close>

subsection \<open>shorten\<close>

text \<open>
  \<^verbatim>\<open>
  function shorten(text = "", n = 200) {
    if (!text) return "(no content)";
    if (text.length <= n) return text;
    return text.slice(0, n) + "...";
  }
  \<close>
  An omitted or \<^verbatim>\<open>undefined\<close> text takes the default \<^verbatim>\<open>""\<close>, which is falsy.
\<close>

definition shorten :: "jsval \<Rightarrow> int \<Rightarrow> string" where
  "shorten arg n =
     (let text = (case arg of None \<Rightarrow> [] | Some t \<Rightarrow> t)
      in if text = [] then ''(no content)''
         else if int (length text) \<le> n then text
         else js_slice0 text n @ ''...'')"

subsection \<open>extractSentences\<close>

text \<open>
  \<^verbatim>\<open>
  function extractSentences(text = "") {
    if (!text) return [];
    const s = text
      .replace(/\n/g, " ")
      .split(/(?<=[.?!])\s+(?=[A-Z0-9])/)
      .map((p) => p.trim())
      .filter(Boolean);
    return s;
  }
  \<close>
  The regular expression is matched at a position \<open>q\<close> of the string \<open>S\<close>: the look-behind
  reads the code unit before \<open>q\<close>, \<^verbatim>\<open>\s+\<close> takes the longest run of white space first
  and gives code units back one at a time while the look-ahead fails, and the look-ahead
  reads the code unit after the run. The result is the end of the match.
\<close>

definition is_terminator :: "char \<Rightarrow> bool" where
  "is_terminator c \<longleftrightarrow> c = CHR ''.'' \<or> c = CHR ''?'' \<or> c = CHR ''!''"

definition is_upper_or_digit :: "char \<Rightarrow> bool" where
  "is_upper_or_digit c \<longleftrightarrow> in_range CHR ''A'' CHR ''Z'' c \<or> in_range CHR ''0'' CHR ''9'' c"

definition lookbehind :: "string \<Rightarrow> nat \<Rightarrow> bool" where
  "lookbehind S q \<longleftrightarrow> 0 < q \<and> q \<le> length S \<and> is_terminator (S ! (q - 1))"

definition lookahead :: "string \<Rightarrow> nat \<Rightarrow> bool" where
  "lookahead S e \<longleftrightarrow> e < length S \<and> is_upper_or_digit (S ! e)"

definition space_run :: "string \<Rightarrow> nat \<Rightarrow> nat" where
  "space_run S q = length (takeWhile is_space (drop q S))"

definition match_at :: "string \<Rightarrow> nat \<Rightarrow> nat option" where
  "match_at S q =
     (if lookbehind S q
      then map_option (\<lambda>k. q + k) (find (\<lambda>k. lookahead S (q + k)) (rev [1..<space_run S q + 1]))
      else None)"

text \<open>
  \<^verbatim>\<open>String.prototype.split\<close> with a regular expression and no limit: \<open>p\<close> is the start
  of the current piece, \<open>q\<close> the position where a match is tried, \<open>A\<close> the pieces so far.
  A match that ends at \<open>p\<close> is skipped; any other match closes the piece and the search
  goes on after it.
\<close>

function split_loop :: "string \<Rightarrow> nat \<Rightarrow> nat \<Rightarrow> string list \<Rightarrow> string list" where
  "split_loop S p q A =
     (if q < length S
      then (case match_at S q of
              None \<Rightarrow> split_loop S p (q + 1) A
            | Some e \<Rightarrow>
                if e = p then split_loop S p (q + 1) A
                else split_loop S e e (A @ [substring S p q]))
      else A @ [substring S p (length S)])"
  by pat_completeness auto
termination
proof (relation "measure (\<lambda>(S, p, q, A). length S - q)")
  fix S :: string and p q :: nat and A :: "string list" and e :: nat
  assume "q < length S" and m: "match_at S q = Some e"
  from m obtain k where e: "e = q + k"
    and f: "find (\<lambda>k. lookahead S (q + k)) (rev [1..<space_run S q + 1]) = Some k"
    by (auto simp: match_at_def split: if_splits)
  from f have "k \<in> set (rev [1..<space_run S q + 1])"
    by (metis find_Some_iff nth_mem)
  then have "1 \<le> k" by auto
  with e have "q < e" by simp
  with \<open>q < length S\<close>
  show "((S, e, e, A @ [substring S p q]), (S, p, q, A)) \<in> measure (\<lambda>(S, p, q, A). length S - q)"
    by simp
qed auto

definition split :: "string \<Rightarrow> string list" where
  "split S = (if S = [] then (if match_at S 0 = None then [S] else []) else split_loop S 0 0 [])"

definition replace_newlines :: "string \<Rightarrow> string" where
  "replace_newlines text = map (\<lambda>c. if c = CHR 0x0A then CHR '' '' else c) text"

definition extractSentences :: "string \<Rightarrow> string list" where
  "extractSentences text =
     (if text = [] then []
      else filter (\<lambda>p. p \<noteq> []) (map trim (split (replace_newlines text))))"

subsection \<open>pickSentences\<close>

text \<open>
  \<^verbatim>\<open>
  function pickSentences(sentences, limit = 5) {
    if (!sentences || sentences.length === 0) return ["No content to generate from."];
    const out = [];
    for (let i = 0; i < limit; i++) {
      out.push(sentences[Math.floor(Math.random() * sentences.length)]);
    }
    return out;
  }
  \<close>
  The list may be missing (\<open>None\<close>). The limit is a count: the callers pass \<open>4\<close>. Every
  round of the loop takes one draw.
\<close>

function pick_loop :: "string list \<Rightarrow> nat \<Rightarrow> nat \<Rightarrow> jsval list \<Rightarrow> env \<Rightarrow> jsval list \<times> env" where
  "pick_loop sentences limit i out e =
     (if i < limit
      then (let (r, e') = math_random e
            in pick_loop sentences limit (i + 1)
                 (out @ [js_index sentences (floor_scaled r (length sentences))]) e')
      else (out, e))"
  by pat_completeness auto
termination
  by (relation "measure (\<lambda>(sentences, limit, i, out, e). limit - i)") auto

definition pickSentences :: "string list option \<Rightarrow> nat \<Rightarrow> env \<Rightarrow> jsval list \<times> env" where
  "pickSentences sentences limit e =
     (case sentences of
        None \<Rightarrow> ([Some ''No content to generate from.''], e)
      | Some ss \<Rightarrow>
          if length ss = 0 then ([Some ''No content to generate from.''], e)
          else pick_loop ss limit 0 [] e)"

subsection \<open>makeDistractors\<close>

text \<open>
  \<^verbatim>\<open>
  function makeDistractors(seed, pool, num = 3) {
    const candidates = pool.filter((p) => p !== seed).slice(0, 20);
    const distractors = [];
    for (let i = 0; i < num; i++) {
      const pick = candidates[Math.floor(Math.random() * candidates.length)]
                   || "Review the text for details.";
      distractors.push(shorten(pick, 80));
    }
    return [shorten(seed, 80), ...distractors];
  }
  \<close>
\<close>

function distractor_loop :: "string list \<Rightarrow> nat \<Rightarrow> nat \<Rightarrow> string list \<Rightarrow> env \<Rightarrow> string list \<times> env" where
  "distractor_loop candidates num i distractors e =
     (if i < num
      then (let (r, e') = math_random e;
                pick = js_or (js_index candidates (floor_scaled r (length candidates)))
                         ''Review the text for details.''
            in distractor_loop candidates num (i + 1) (distractors @ [shorten (Some pick) 80]) e')
      else (distractors, e))"
  by pat_completeness auto
termination
  by (relation "measure (\<lambda>(candidates, num, i, distractors, e). num - i)") auto

definition makeDistractors :: "jsval \<Rightarrow> string list \<Rightarrow> nat \<Rightarrow> env \<Rightarrow> string list \<times> env" where
  "makeDistractors seed pool num e =
     (let candidates = take 20 (filter (\<lambda>p. Some p \<noteq> seed) pool);
          (distractors, e') = distractor_loop candidates num 0 [] e
      in (shorten seed 80 # distractors, e'))"

subsection \<open>sampleProgress\<close>

record progress_point =
  month :: string
  score :: int

definition sampleProgress :: "progress_point list" where
  "sampleProgress =
     [\<lparr>month = ''Jan'', score = 45\<rparr>, \<lparr>month = ''Feb'', score = 52\<rparr>,
      \<lparr>month = ''Mar'', score = 58\<rparr>, \<lparr>month = ''Apr'', score = 62\<rparr>,
      \<lparr>month = ''May'', score = 68\<rparr>, \<lparr>month = ''Jun'', score = 72\<rparr>,
      \<lparr>month = ''Jul'', score = 75\<rparr>, \<lparr>month = ''Aug'', score = 80\<rparr>]"

section \<open>The component and its state\<close>

text \<open>
  The state of \<^verbatim>\<open>StudyCompanionApp\<close> is what its \<^verbatim>\<open>useState\<close> hooks hold: the route,
  the profile, the uploaded documents, the assessments and the progress data. A handler
  takes the state and the environment and returns the new ones. An item of a short-answer
  assessment has no \<^verbatim>\<open>choices\<close> property (\<open>None\<close>).
\<close>

record profile =
  name :: string
  institution :: string
  syllabus :: string
  qualification :: string
  nationality :: string
  learningStyle :: string

record document =
  doc_id :: int
  doc_name :: string
  doc_size :: nat
  doc_text :: string
  uploadedAt :: string
  pdfStub :: bool

record item =
  item_id :: int
  item_type :: string
  question :: string
  choices :: "string list option"
  answer :: jsval

record assessment =
  assessment_id :: int
  docId :: int
  title :: string
  items :: "item list"
  createdAt :: string

record app_state =
  route :: string
  profile :: profile
  documents :: "document list"
  assessments :: "assessment list"
  progressData :: "progress_point list"

datatype error = TypeError

definition initial_state :: app_state where
  "initial_state =
     \<lparr>route = ''dashboard'',
      profile = \<lparr>name = [], institution = [], syllabus = [], qualification = [],
                 nationality = [], learningStyle = []\<rparr>,
      documents = [], assessments = [], progressData = sampleProgress\<rparr>"

subsection \<open>generateAssessmentFromDoc\<close>

text \<open>
  \<^verbatim>\<open>
  function generateAssessmentFromDoc(docId, type = "mcq", limit = 5) {
    const doc = documents.find((d) => d.id === docId);
    if (!doc) return;
    const sentences = extractSentences(doc.text);
    const picks = pickSentences(sentences, limit);
    const items = picks.map((s, i) => {
      if (type === "mcq") {
        const choices = makeDistractors(s, sentences, 3);
        return { id: Date.now() + i, type: "mcq",
                 question: `What best explains: \"${shorten(s, 120)}\"?`,
                 choices, answer: choices[0] };
      }
      return { id: Date.now() + i, type: "short",
               question: `Explain: \"${shorten(s, 120)}\"`, answer: s };
    });
    const assessment = { id: Date.now(), docId, title: `Auto Assessment - ${doc.name}`,
                         items, createdAt: new Date().toISOString() };
    setAssessments((s) => [assessment, ...s]);
    setRoute("assessments");
  }
  \<close>
\<close>

definition make_item :: "string \<Rightarrow> string list \<Rightarrow> jsval \<Rightarrow> nat \<Rightarrow> env \<Rightarrow> item \<times> env" where
  "make_item type sentences s i e =
     (if type = ''mcq''
      then (let (cs, e1) = makeDistractors s sentences 3 e;
                (t, e2) = date_now e1
            in (\<lparr>item_id = t + int i, item_type = ''mcq'',
                 question = ''What best explains: '' @ [CHR 0x22] @ shorten s 120 @ [CHR 0x22] @ ''?'',
                 choices = Some cs, answer = js_index cs 0\<rparr>, e2))
      else (let (t, e1) = date_now e
            in (\<lparr>item_id = t + int i, item_type = ''short'',
                 question = ''Explain: '' @ [CHR 0x22] @ shorten s 120 @ [CHR 0x22],
                 choices = None, answer = s\<rparr>, e1)))"

fun map_items :: "string \<Rightarrow> string list \<Rightarrow> jsval list \<Rightarrow> nat \<Rightarrow> env \<Rightarrow> item list \<times> env" where
  "map_items type sentences [] i e = ([], e)"
| "map_items type sentences (s # picks) i e =
     (let (it, e1) = make_item type sentences s i e;
          (its, e2) = map_items type sentences picks (i + 1) e1
      in (it # its, e2))"

definition generateAssessmentFromDoc :: "int \<Rightarrow> string \<Rightarrow> nat \<Rightarrow> env \<Rightarrow> app_state \<Rightarrow> app_state \<times> env" where
  "generateAssessmentFromDoc did type limit e st =
     (case find (\<lambda>d. doc_id d = did) (documents st) of
        None \<Rightarrow> (st, e)
      | Some doc \<Rightarrow>
          (let sentences = extractSentences (doc_text doc);
               (picks, e1) = pickSentences (Some sentences) limit e;
               (its, e2) = map_items type sentences picks 0 e1;
               (t, e3) = date_now e2;
               (t', e4) = date_now e3;
               a = \<lparr>assessment_id = t, docId = did,
                    title = ''Auto Assessment - '' @ doc_name doc,
                    items = its, createdAt = toISOString e4 t'\<rparr>
           in (st\<lparr>assessments := a # assessments st, route := ''assessments''\<rparr>, e4)))"

subsection \<open>markAssessmentProgress\<close>

text \<open>
  \<^verbatim>\<open>
  function markAssessmentProgress(assessmentId) {
    const newData = progressData.map((p) => ({ ...p }));
    const idx = Math.floor(Math.random() * newData.length);
    newData[idx].score = Math.min(100, newData[idx].score + Math.floor(Math.random() * 20));
    setProgressData(newData);
  }
  \<close>
  Reading \<^verbatim>\<open>.score\<close> of \<^verbatim>\<open>undefined\<close> throws a \<^verbatim>\<open>TypeError\<close>, which leaves the
  handler before the state is set.
\<close>

definition markAssessmentProgress :: "int \<Rightarrow> env \<Rightarrow> app_state \<Rightarrow> error + app_state \<times> env" where
  "markAssessmentProgress assessmentId e st =
     (let newData = map (\<lambda>p. p) (progressData st);
          (r, e1) = math_random e;
          idx = floor_scaled r (length newData)
      in case js_index newData idx of
           None \<Rightarrow> Inl TypeError
         | Some p \<Rightarrow>
             (let (r', e2) = math_random e1;
                  newData' = newData[idx := p\<lparr>score := min 100 (score p + int (floor_scaled r' 20))\<rparr>]
              in Inr (st\<lparr>progressData := newData'\<rparr>, e2)))"

subsection \<open>updateProfileField\<close>

text \<open>
  \<^verbatim>\<open>
  function updateProfileField(field, value) {
    setProfile((p) => ({ ...p, [field]: value }));
  }
  \<close>
  The form calls it with the six field names of the profile; any other key would add a
  property that nothing reads.
\<close>

definition updateProfileField :: "string \<Rightarrow> string \<Rightarrow> app_state \<Rightarrow> app_state" where
  "updateProfileField field v st =
     st\<lparr>profile :=
        (let p = profile st
         in if field = ''name'' then p\<lparr>name := v\<rparr>
            else if field = ''institution'' then p\<lparr>institution := v\<rparr>
            else if field = ''syllabus'' then p\<lparr>syllabus := v\<rparr>
            else if field = ''qualification'' then p\<lparr>qualification := v\<rparr>
            else if field = ''nationality'' then p\<lparr>nationality := v\<rparr>
            else if field = ''learningStyle'' then p\<lparr>learningStyle := v\<rparr>
            else p)\<rparr>"

subsection \<open>generateAISuggestions\<close>

text \<open>
  \<^verbatim>\<open>
  function generateAISuggestions() {
    const base = [];
    if (profile.qualification.toLowerCase().includes("bachelor")
        || profile.qualification.toLowerCase().includes("undergrad")) {
      base.push("Focus on conceptual depth and past-year exam patterns.");
    }
    if (profile.syllabus.toLowerCase().includes("math")
        || profile.syllabus.toLowerCase().includes("calculus")) {
      base.push("Do daily problem sets; mix timed quizzes and long-form proofs.");
    }
    if (profile.nationality && profile.nationality.toLowerCase() === "india") {
      base.push("Balance board-style MCQs with subjective practice (common in many Indian exams).");
    }
    if (!profile.syllabus) base.push("Upload a syllabus or sample notes for more tailored suggestions.");
    if (documents.length >= 3) base.push("Use spaced repetition: create flashcards from each doc's key facts.");
    if (profile.learningStyle) base.push(`Tailor materials to your learning style: ${profile.learningStyle}.`);
    const suggestions = base.length ? base : ["No profile data yet - fill in your profile for personalized suggestions."];
    return suggestions;
  }
  \<close>
  The dash of the last message is U+2014 in the source, outside the code units modelled
  here; the message keeps it as the three bytes of its UTF-8 form. Only the identity of
  that message matters below.
\<close>

definition depth_advice :: string where
  "depth_advice = ''Focus on conceptual depth and past-year exam patterns.''"

definition problem_set_advice :: string where
  "problem_set_advice = ''Do daily problem sets; mix timed quizzes and long-form proofs.''"

definition balance_advice :: string where
  "balance_advice =
     ''Balance board-style MCQs with subjective practice (common in many Indian exams).''"

definition upload_advice :: string where
  "upload_advice = ''Upload a syllabus or sample notes for more tailored suggestions.''"

definition repetition_advice :: string where
  "repetition_advice =
     ''Use spaced repetition: create flashcards from each doc'' @ [CHR 0x27] @ ''s key facts.''"

definition tailor_advice :: "string \<Rightarrow> string" where
  "tailor_advice style = ''Tailor materials to your learning style: '' @ style @ ''.''"

definition no_profile_message :: string where
  "no_profile_message =
     ''No profile data yet '' @ [CHR 0xE2, CHR 0x80, CHR 0x94] @
     '' fill in your profile for personalized suggestions.''"

definition push_if :: "bool \<Rightarrow> string \<Rightarrow> string list \<Rightarrow> string list" where
  "push_if b s base = (if b then base @ [s] else base)"

definition generateAISuggestions :: "app_state \<Rightarrow> string list" where
  "generateAISuggestions st =
     (let p = profile st;
          base = [];
          base = push_if (js_includes (toLowerCase (qualification p)) ''bachelor''
                          \<or> js_includes (toLowerCase (qualification p)) ''undergrad'')
                   depth_advice base;
          base = push_if (js_includes (toLowerCase (syllabus p)) ''math''
                          \<or> js_includes (toLowerCase (syllabus p)) ''calculus'')
                   problem_set_advice base;
          base = push_if (nationality p \<noteq> [] \<and> toLowerCase (nationality p) = ''india'')
                   balance_advice base;
          base = push_if (syllabus p = []) upload_advice base;
          base = push_if (3 \<le> length (documents st)) repetition_advice base;
          base = push_if (learningStyle p \<noteq> [])
                   (tailor_advice (learningStyle p)) base
      in if length base \<noteq> 0 then base else [no_profile_message])"

declare split_loop.simps [simp del] pick_loop.simps [simp del] distractor_loop.simps [simp del]

section \<open>The rules as the specification words them\<close>

subsection \<open>Sentence boundaries\<close>

text \<open>
  The specification describes the splitter without the regular expression: line breaks
  become spaces; the text is cut wherever a sentence-ending mark (\<open>.\<close>, \<open>?\<close>, \<open>!\<close>) is
  followed by white space and the next character after it is an upper-case letter or a
  digit; the pieces are trimmed and the empty ones dropped. The definitions of this
  subsection follow these words and use nothing of the embedding of \<open>extractSentences\<close>.
  Characters are ordered by their code units. White space is the space, the no-break
  space and the controls from tab to carriage return; the line breaks are the line feed
  and the carriage return; the upper-case letters below U+0100 are \<open>A\<close> to \<open>Z\<close> and the
  accented capitals U+00C0 to U+00DE without the multiplication sign.
\<close>

definition sentence_end :: "char \<Rightarrow> bool" where
  "sentence_end c \<longleftrightarrow> c \<in> set ''.?!''"

definition white_space :: "char \<Rightarrow> bool" where
  "white_space c \<longleftrightarrow> (CHR 0x09 \<le> c \<and> c \<le> CHR 0x0D) \<or> c = CHR 0x20 \<or> c = CHR 0xA0"

definition line_break :: "char \<Rightarrow> bool" where
  "line_break c \<longleftrightarrow> c = CHR 0x0A \<or> c = CHR 0x0D"

definition line_feed :: "char \<Rightarrow> bool" where
  "line_feed c \<longleftrightarrow> c = CHR 0x0A"

definition digit :: "char \<Rightarrow> bool" where
  "digit c \<longleftrightarrow> CHR ''0'' \<le> c \<and> c \<le> CHR ''9''"

definition ascii_capital :: "char \<Rightarrow> bool" where
  "ascii_capital c \<longleftrightarrow> CHR ''A'' \<le> c \<and> c \<le> CHR ''Z''"

definition uppercase_letter :: "char \<Rightarrow> bool" where
  "uppercase_letter c \<longleftrightarrow>
     ascii_capital c \<or> (CHR 0xC0 \<le> c \<and> c \<le> CHR 0xD6) \<or> (CHR 0xD8 \<le> c \<and> c \<le> CHR 0xDE)"

text \<open>
  \<open>breaks_to_spaces br\<close> puts a space for every character that \<open>br\<close> counts as a line
  break; \<open>strip\<close> removes the white space at both ends; \<open>cut_sentences starts\<close> reads the
  text once from the left, \<open>cur\<close> being the piece read so far, and cuts after a
  sentence-ending mark that white space follows when \<open>starts\<close> holds of the first character
  after that white space, which belongs to no piece.
\<close>

fun breaks_to_spaces :: "(char \<Rightarrow> bool) \<Rightarrow> string \<Rightarrow> string" where
  "breaks_to_spaces br [] = []"
| "breaks_to_spaces br (c # cs) = (if br c then CHR '' '' else c) # breaks_to_spaces br cs"

fun strip_left :: "string \<Rightarrow> string" where
  "strip_left [] = []"
| "strip_left (c # cs) = (if white_space c then strip_left cs else c # cs)"

definition strip :: "string \<Rightarrow> string" where
  "strip s = rev (strip_left (rev (strip_left s)))"

definition boundary_follows :: "(char \<Rightarrow> bool) \<Rightarrow> string \<Rightarrow> bool" where
  "boundary_follows starts cs \<longleftrightarrow>
     (case cs of [] \<Rightarrow> False
      | c # _ \<Rightarrow> white_space c \<and>
          (case strip_left cs of [] \<Rightarrow> False | d # _ \<Rightarrow> starts d))"

function cut_sentences :: "(char \<Rightarrow> bool) \<Rightarrow> string \<Rightarrow> string \<Rightarrow> string list" where
  "cut_sentences starts cur [] = [cur]"
| "cut_sentences starts cur (c # cs) =
     (if sentence_end c \<and> boundary_follows starts cs
      then (cur @ [c]) # cut_sentences starts [] (strip_left cs)
      else cut_sentences starts (cur @ [c]) cs)"
  by pat_completeness auto
termination
proof (relation "measure (\<lambda>(starts, cur, cs). length cs)")
  fix starts :: "char \<Rightarrow> bool" and cur :: string and c :: char and cs :: string
  have "length (strip_left xs) \<le> length xs" for xs
    by (induction xs) auto
  then have "length (strip_left cs) < Suc (length cs)"
    by (simp add: less_Suc_eq_le)
  then show "((starts, [], strip_left cs), (starts, cur, c # cs))
      \<in> measure (\<lambda>(starts, cur, cs). length cs)"
    by simp
qed auto

text \<open>
  The splitter as the specification words it: every line break, every upper-case letter.
\<close>

definition described_sentences :: "string \<Rightarrow> string list" where
  "described_sentences text =
     filter (\<lambda>p. p \<noteq> [])
       (map strip (cut_sentences (\<lambda>c. uppercase_letter c \<or> digit c) []
          (breaks_to_spaces line_break text)))"

text \<open>
  The same splitter with the line feed as the only line break and \<open>A\<close> to \<open>Z\<close> as the only
  upper-case letters.
\<close>

definition sentences_of :: "string \<Rightarrow> string list" where
  "sentences_of text =
     filter (\<lambda>p. p \<noteq> [])
       (map strip (cut_sentences (\<lambda>c. ascii_capital c \<or> digit c) []
          (breaks_to_spaces line_feed text)))"

subsection \<open>Suggestion rules\<close>

text \<open>
  The six rules of the suggestion engine, in their order: each has a predicate on the
  profile and the number of documents, and a string. The engine returns the strings of the
  rules that hold, in rule order, or the one generic message when none holds.
\<close>

datatype rule = Rule1 | Rule2 | Rule3 | Rule4 | Rule5 | Rule6

definition rules :: "rule list" where
  "rules = [Rule1, Rule2, Rule3, Rule4, Rule5, Rule6]"

fun rule_holds :: "rule \<Rightarrow> profile \<Rightarrow> nat \<Rightarrow> bool" where
  "rule_holds Rule1 p n \<longleftrightarrow>
     js_includes (toLowerCase (qualification p)) ''bachelor''
     \<or> js_includes (toLowerCase (qualification p)) ''undergrad''"
| "rule_holds Rule2 p n \<longleftrightarrow>
     js_includes (toLowerCase (syllabus p)) ''math''
     \<or> js_includes (toLowerCase (syllabus p)) ''calculus''"
| "rule_holds Rule3 p n \<longleftrightarrow> toLowerCase (nationality p) = ''india''"
| "rule_holds Rule4 p n \<longleftrightarrow> syllabus p = []"
| "rule_holds Rule5 p n \<longleftrightarrow> 3 \<le> n"
| "rule_holds Rule6 p n \<longleftrightarrow> learningStyle p \<noteq> []"

fun rule_string :: "rule \<Rightarrow> profile \<Rightarrow> string" where
  "rule_string Rule1 p = depth_advice"
| "rule_string Rule2 p = problem_set_advice"
| "rule_string Rule3 p = balance_advice"
| "rule_string Rule4 p = upload_advice"
| "rule_string Rule5 p = repetition_advice"
| "rule_string Rule6 p = tailor_advice (learningStyle p)"

definition fired :: "profile \<Rightarrow> nat \<Rightarrow> string list" where
  "fired p n = map (\<lambda>k. rule_string k p) (filter (\<lambda>k. rule_holds k p n) rules)"

definition suggest :: "profile \<Rightarrow> nat \<Rightarrow> string list" where
  "suggest p n = (if fired p n = [] then [no_profile_message] else fired p n)"

definition fires :: "rule \<Rightarrow> app_state \<Rightarrow> bool" where
  "fires k st \<longleftrightarrow> rule_holds k (profile st) (length (documents st))"

section \<open>A sample run\<close>

text \<open>
  A state with one uploaded document, and an environment whose draws are all \<open>1 / 2\<close>; the
  theorems below are tried on them.
\<close>

definition demo_env :: env where
  "demo_env = \<lparr>random = (\<lambda>i. 1 / 2), now = (\<lambda>i. 1000),
               toISOString = (\<lambda>t. ''1970-01-01T00:00:01.000Z'')\<rparr>"

definition demo_doc :: document where
  "demo_doc = \<lparr>doc_id = 7, doc_name = ''notes.txt'', doc_size = 36,
               doc_text = ''Hello world. This Is Fine! Next one?'',
               uploadedAt = ''1970-01-01T00:00:00.007Z'', pdfStub = False\<rparr>"

definition demo_state :: app_state where
  "demo_state = initial_state\<lparr>documents := [demo_doc]\<rparr>"

text \<open>The same state after the profile form has set a syllabus and a qualification.\<close>

definition demo_graduate :: app_state where
  "demo_graduate =
     updateProfileField ''qualification'' ''bachelor''
       (updateProfileField ''syllabus'' ''history'' demo_state)"

section \<open>Properties\<close>

subsection \<open>Truncation\<close>

lemma js_slice0_nonneg: "0 \<le> n \<Longrightarrow> js_slice0 text n = take (nat n) text"
  by (simp add: js_slice0_def Let_def min_def)

text \<open>
  C4, as stated, fails: the empty string is not returned unchanged but replaced by the
  12-character placeholder, which is longer than a cap below 9 allows; and a negative cap
  makes \<^verbatim>\<open>slice\<close> count from the end of the string.
\<close>

theorem shorten_empty_counterexample:
  "\<not> int (length (shorten (Some []) 0)) \<le> 0 + 3
   \<and> shorten (Some []) 0 \<noteq> []
   \<and> \<not> int (length (shorten (Some ''abc'') (- 1))) \<le> - 1 + 3"
  by (simp add: shorten_def js_slice0_def)

text \<open>
  C4, amended: for every non-empty string \<open>s\<close> and cap \<open>n \<ge> 0\<close>, \<open>shorten s n\<close> has at most
  \<open>n + 3\<close> code units, is \<open>s\<close> itself when \<open>s\<close> has at most \<open>n\<close>, and is otherwise the first
  \<open>n\<close> code units of \<open>s\<close> followed by the three dots; empty and missing content give the
  placeholder \<open>(no content)\<close>, whatever the cap.
\<close>

theorem shorten_capped:
  "shorten None n = ''(no content)''
   \<and> shorten (Some []) n = ''(no content)''
   \<and> (s \<noteq> [] \<and> 0 \<le> n \<longrightarrow>
        int (length (shorten (Some s) n)) \<le> n + 3
        \<and> (int (length s) \<le> n \<longrightarrow> shorten (Some s) n = s)
        \<and> (n < int (length s) \<longrightarrow> shorten (Some s) n = take (nat n) s @ ''...''))"
  by (auto simp: shorten_def js_slice0_nonneg)

theorem shorten_capped_witness:
  "shorten (Some ''conceptual depth'') 10 = ''conceptual...''
   \<and> shorten (Some ''depth'') 10 = ''depth''
   \<and> int (length (shorten (Some ''conceptual depth'') 10)) \<le> 10 + 3"
  using shorten_capped [of 10 "''conceptual depth''"] shorten_capped [of 10 "''depth''"]
  by simp

subsection \<open>Sentence extraction never yields an empty sentence\<close>

text \<open>
  C6: \<open>extractSentences\<close> is a total function of its text (the loop of \<open>split\<close> terminates
  on every string, and no step of it can throw), no element of its result is the empty
  string, and the empty text gives the empty list.
\<close>

theorem extractSentences_no_empty:
  "[] \<notin> set (extractSentences text) \<and> extractSentences [] = []"
  by (simp add: extractSentences_def)

subsection \<open>Rounding\<close>

text \<open>
  The binary exponent brackets its argument, so a rounded result differs from the exact
  one by at most half an \<open>ulp\<close>: by at most the fraction \<open>1 / 2 ^ 53\<close> of the exact result,
  unless that is below \<open>2 ^ - 1022\<close>.
\<close>

lemma bitlen_pos: "0 < k \<Longrightarrow> 1 \<le> bitlen k"
  by (simp add: bitlen_alt_def)

lemma binary_exponent_bounds:
  assumes "0 < x"
  shows "2 powi binary_exponent x \<le> x" and "x < 2 powi (binary_exponent x + 1)"
proof -
  have "2 powi binary_exponent x \<le> x \<and> x < 2 powi (binary_exponent x + 1)"
  proof (cases "1 \<le> x")
    case True
    let ?m = "\<lfloor>x\<rfloor>"
    let ?b = "bitlen ?m"
    from True have m: "0 < ?m" by simp
    from bitlen_bounds [OF m] have lo: "2 ^ nat (?b - 1) \<le> ?m" and hi: "?m < 2 ^ nat ?b" by simp_all
    from bitlen_pos [OF m] have b: "1 \<le> ?b" .
    have e: "binary_exponent x = ?b - 1" using True by (simp add: binary_exponent_def)
    have "(2::real) ^ nat (?b - 1) = of_int (2 ^ nat (?b - 1))" by simp
    also have "\<dots> \<le> of_int ?m" using lo by (simp only: of_int_le_iff)
    also have "\<dots> \<le> x" by simp
    finally have 1: "(2::real) ^ nat (?b - 1) \<le> x" .
    from hi have "?m + 1 \<le> 2 ^ nat ?b" by simp
    then have "(of_int (?m + 1) :: real) \<le> of_int (2 ^ nat ?b)" by (simp only: of_int_le_iff)
    then have "real_of_int ?m + 1 \<le> 2 ^ nat ?b" by simp
    moreover have "x < real_of_int ?m + 1" by linarith
    ultimately have 2: "x < (2::real) ^ nat ?b" by linarith
    from 1 2 b show ?thesis by (simp add: e power_int_def)
  next
    case False
    let ?y = "1 / x"
    let ?k = "\<lceil>?y\<rceil> - 1"
    let ?b = "bitlen ?k"
    from False assms have y: "1 < ?y" by simp
    then have k: "0 < ?k" by linarith
    from bitlen_bounds [OF k] have lo: "2 ^ nat (?b - 1) \<le> ?k" and hi: "?k < 2 ^ nat ?b" by simp_all
    from bitlen_pos [OF k] have b: "1 \<le> ?b" .
    have e: "binary_exponent x = - ?b" using False by (simp add: binary_exponent_def)
    from hi have "?k + 1 \<le> 2 ^ nat ?b" by simp
    then have "(of_int (?k + 1) :: real) \<le> of_int (2 ^ nat ?b)" by (simp only: of_int_le_iff)
    then have "real_of_int ?k + 1 \<le> 2 ^ nat ?b" by simp
    moreover have "?y \<le> real_of_int ?k + 1" by simp
    ultimately have yhi: "?y \<le> 2 ^ nat ?b" by linarith
    have "(2::real) ^ nat (?b - 1) = of_int (2 ^ nat (?b - 1))" by simp
    also have "\<dots> \<le> of_int ?k" using lo by (simp only: of_int_le_iff)
    also have "\<dots> < ?y" by linarith
    finally have ylo: "(2::real) ^ nat (?b - 1) < ?y" .
    from yhi assms have 1: "1 / 2 ^ nat ?b \<le> x"
      by (simp add: field_simps)
    from ylo assms have 2: "x < 1 / 2 ^ nat (?b - 1)"
      by (simp add: field_simps)
    have p1: "(2::real) powi (- ?b) = 1 / 2 ^ nat ?b"
      using b by (simp add: power_int_def field_simps)
    have p2: "(2::real) powi (- ?b + 1) = 1 / 2 ^ nat (?b - 1)"
    proof (cases "?b = 1")
      case True
      then show ?thesis by simp
    next
      case False
      with b have "- ?b + 1 < 0" by simp
      moreover have "nat (- (- ?b + 1)) = nat (?b - 1)" by simp
      ultimately show ?thesis by (simp add: power_int_def field_simps)
    qed
    from 1 2 show ?thesis unfolding e p1 p2 by (rule conjI)
  qed
  then show "2 powi binary_exponent x \<le> x" and "x < 2 powi (binary_exponent x + 1)" by simp_all
qed

lemma round_half_even_near: "\<bar>of_int (round_half_even q) - q\<bar> \<le> 1 / 2"
  unfolding round_half_even_def by (auto; linarith)

lemma ulp_pos: "0 < ulp x"
  by (simp add: ulp_def)

lemma round_double_near:
  assumes "0 < x"
  shows "\<bar>round_double x - x\<bar> \<le> ulp x / 2"
proof -
  let ?u = "ulp x"
  let ?M = "of_int (round_half_even (x / ?u)) :: real"
  have u: "0 < ?u" by (rule ulp_pos)
  have "round_double x - x = (?M - x / ?u) * ?u"
    using assms u by (simp add: round_double_def field_simps)
  then have "\<bar>round_double x - x\<bar> = \<bar>?M - x / ?u\<bar> * ?u"
    using u by (simp add: abs_mult)
  also have "\<dots> \<le> 1 / 2 * ?u"
    using round_half_even_near [of "x / ?u"] u by (intro mult_right_mono) simp_all
  finally show ?thesis by simp
qed

lemma ulp_normal:
  assumes "0 < x" "- 1022 \<le> binary_exponent x"
  shows "ulp x \<le> x / 2 ^ 52"
proof -
  have "ulp x = 2 powi (binary_exponent x - 52)"
    using assms(2) by (simp add: ulp_def max_def)
  also have "\<dots> = 2 powi binary_exponent x / 2 ^ 52"
    by (simp add: power_int_diff)
  also have "\<dots> \<le> x / 2 ^ 52"
    using binary_exponent_bounds(1) [OF assms(1)] by (simp add: divide_right_mono)
  finally show ?thesis .
qed

lemma ulp_subnormal:
  assumes "0 < x" "binary_exponent x < - 1022"
  shows "ulp x = 2 powi (- 1074)" and "x < 2 powi (- 1022)"
proof -
  show "ulp x = 2 powi (- 1074)"
    using assms(2) by (simp add: ulp_def max_def)
  have "x < 2 powi (binary_exponent x + 1)"
    by (rule binary_exponent_bounds(2) [OF assms(1)])
  also have "\<dots> \<le> 2 powi (- 1022)"
    using assms(2) by (intro power_int_increasing) simp_all
  finally show "x < 2 powi (- 1022)" .
qed

lemma round_double_nonneg: "0 \<le> x \<Longrightarrow> 0 \<le> round_double x"
proof -
  assume x: "0 \<le> x"
  have "0 \<le> round_half_even q" if "0 \<le> q" for q
    using that by (auto simp: round_half_even_def)
  moreover have "0 \<le> \<bar>x\<bar> / ulp \<bar>x\<bar>" using ulp_pos [of "\<bar>x\<bar>"] by simp
  ultimately have "0 \<le> round_half_even (\<bar>x\<bar> / ulp \<bar>x\<bar>)" by blast
  with x ulp_pos [of "\<bar>x\<bar>"] show ?thesis
    by (simp add: round_double_def sgn_if)
qed

lemma round_double_enclosure:
  assumes "0 \<le> x"
  shows "(x < 1 \<and> round_double x < 1)
       \<or> (x * (1 - 1 / 2 ^ 53) \<le> round_double x \<and> round_double x \<le> x * (1 + 1 / 2 ^ 53))"
proof (cases "x = 0")
  case True
  then show ?thesis by (simp add: round_double_def)
next
  case False
  with assms have x: "0 < x" by simp
  note near = round_double_near [OF x]
  show ?thesis
  proof (cases "- 1022 \<le> binary_exponent x")
    case True
    from ulp_normal [OF x True] have "ulp x / 2 \<le> x / 2 ^ 53" by simp
    with near have "\<bar>round_double x - x\<bar> \<le> x / 2 ^ 53" by linarith
    then have "x - x / 2 ^ 53 \<le> round_double x" and "round_double x \<le> x + x / 2 ^ 53"
      by linarith+
    then show ?thesis by (simp add: algebra_simps)
  next
    case False
    then have e: "binary_exponent x < - 1022" by simp
    have "(2::real) powi (- 1022) \<le> 2 powi (- 2)" and "(2::real) powi (- 1074) \<le> 2 powi (- 2)"
      by (intro power_int_increasing; simp)+
    moreover have "(2::real) powi (- 2) = 1 / 4"
      by (simp add: power_int_minus)
    ultimately have small: "(2::real) powi (- 1022) + 2 powi (- 1074) / 2 < 1"
      by linarith
    from ulp_subnormal [OF x e] near
    have "round_double x \<le> 2 powi (- 1022) + 2 powi (- 1074) / 2" and "x < 2 powi (- 1022)"
      by linarith+
    with small show ?thesis by simp
  qed
qed

subsection \<open>Random indices\<close>

text \<open>
  The largest double below \<open>1\<close> is \<open>1 - 1 / 2 ^ 53\<close>, so the rounded product of a draw and a
  length \<open>n > 0\<close> stays below \<open>n\<close>: \<^verbatim>\<open>Math.floor(r * n)\<close> is an index below \<open>n\<close>. The index
  is the floor of the exact product up to that one rounding; at the draw
  \<open>7505999378950826 / 2 ^ 53\<close> (printed \<open>0.8333333333333333\<close>) and \<open>n = 6\<close> the exact product
  is below \<open>5\<close> and the rounded one is \<open>5\<close>.
\<close>

lemma floor_scaled_less:
  assumes "0 \<le> r" "r \<le> 1 - 1 / 2 ^ 53" "0 < n"
  shows "floor_scaled r n < n"
proof -
  let ?x = "r * real n"
  have x: "0 \<le> ?x" using assms by simp
  have lt: "round_double ?x < real n"
    using round_double_enclosure [OF x]
  proof
    assume "?x < 1 \<and> round_double ?x < 1"
    with assms(3) show ?thesis by simp
  next
    assume "?x * (1 - 1 / 2 ^ 53) \<le> round_double ?x \<and> round_double ?x \<le> ?x * (1 + 1 / 2 ^ 53)"
    then have "round_double ?x \<le> ?x * (1 + 1 / 2 ^ 53)" ..
    also have "\<dots> \<le> ((1 - 1 / 2 ^ 53) * real n) * (1 + 1 / 2 ^ 53)"
      using assms by (intro mult_right_mono) simp_all
    also have "\<dots> = real n * (1 - 1 / 2 ^ 106)"
      by (simp add: algebra_simps)
    also have "\<dots> < real n" using assms(3) by simp
    finally show ?thesis .
  qed
  then have "\<lfloor>round_double ?x\<rfloor> < int n" by (simp add: floor_less_iff)
  moreover have "0 \<le> \<lfloor>round_double ?x\<rfloor>" using round_double_nonneg [OF x] by simp
  ultimately show ?thesis by (simp add: floor_scaled_def nat_less_iff)
qed

lemma double_below_one:
  assumes "is_double r" "0 \<le> r" "r < 1"
  shows "r \<le> 1 - 1 / 2 ^ 53"
proof (cases "r < 1 / 2")
  case True
  then show ?thesis by simp
next
  case False
  then have r: "1 / 2 \<le> r" "0 < r" by simp_all
  from r assms(3) have "1 < 1 / r" "1 / r \<le> 2" by (simp_all add: field_simps)
  then have "\<lceil>1 / r\<rceil> = 2" by (simp add: ceiling_eq_iff)
  moreover have "bitlen 1 = 1" by (simp add: bitlen_alt_def)
  ultimately have e: "binary_exponent r = - 1"
    using assms(3) by (simp add: binary_exponent_def)
  then have "ulp r = 2 powi (- 53)" by (simp add: ulp_def)
  then have u: "ulp r = 1 / 2 ^ 53" by (simp add: power_int_minus field_simps)
  let ?M = "round_half_even (r / ulp r)"
  from assms(1) r have eq: "r = of_int ?M / 2 ^ 53"
    by (simp add: is_double_def round_double_def u)
  with assms(3) have "real_of_int ?M < 2 ^ 53" by (simp add: field_simps)
  then have "?M < 2 ^ 53" by simp
  then have "?M + 1 \<le> 2 ^ 53" by simp
  then have "real_of_int (?M + 1) \<le> real_of_int (2 ^ 53)" by (simp only: of_int_le_iff)
  then have "real_of_int ?M + 1 \<le> 2 ^ 53" by simp
  then have "(real_of_int ?M + 1) / 2 ^ 53 \<le> 2 ^ 53 / 2 ^ 53" by (rule divide_right_mono) simp
  then have "real_of_int ?M / 2 ^ 53 + 1 / 2 ^ 53 \<le> 1" by (simp add: add_divide_distrib)
  with eq show ?thesis by linarith
qed

lemma floor_scaled_near:
  assumes "0 \<le> r" "floor_scaled r n = j"
  shows "real j \<le> r * real n * (1 + 1 / 2 ^ 53)" and "r * real n * (1 - 1 / 2 ^ 53) < real j + 1"
proof -
  let ?x = "r * real n"
  have x: "0 \<le> ?x" using assms by simp
  have rd: "0 \<le> round_double ?x" by (rule round_double_nonneg [OF x])
  from rd have "0 \<le> \<lfloor>round_double ?x\<rfloor>" by simp
  then have "int (nat \<lfloor>round_double ?x\<rfloor>) = \<lfloor>round_double ?x\<rfloor>" by (rule nat_0_le)
  with assms(2) have j: "int j = \<lfloor>round_double ?x\<rfloor>" unfolding floor_scaled_def by simp
  then have jl: "real j \<le> round_double ?x" and ju: "round_double ?x < real j + 1"
    by linarith+
  have "real j \<le> ?x * (1 + 1 / 2 ^ 53) \<and> ?x * (1 - 1 / 2 ^ 53) < real j + 1"
    using round_double_enclosure [OF x]
  proof
    assume small: "?x < 1 \<and> round_double ?x < 1"
    with jl have "j = 0" by simp
    moreover from small have "?x < 1" ..
    ultimately show ?thesis using x by (simp add: algebra_simps)
  next
    assume "?x * (1 - 1 / 2 ^ 53) \<le> round_double ?x \<and> round_double ?x \<le> ?x * (1 + 1 / 2 ^ 53)"
    with jl ju show ?thesis by linarith
  qed
  then show "real j \<le> r * real n * (1 + 1 / 2 ^ 53)" and "r * real n * (1 - 1 / 2 ^ 53) < real j + 1"
    by simp_all
qed

lemma floor_scaled_examples:
  shows "floor_scaled (1 / 2) 3 = 1" and "floor_scaled (1 / 2) 8 = 4"
    and "floor_scaled (1 / 2) 20 = 10"
    and "floor_scaled (7505999378950826 / 2 ^ 53) 6 = 5"
    and "floor_scaled (8106479329266892 / 2 ^ 54) 20 = 9"
  by code_simp+

lemma exact_product_examples:
  shows "nat \<lfloor>(7505999378950826 / 2 ^ 53 :: real) * 6\<rfloor> = 4"
    and "nat \<lfloor>(8106479329266892 / 2 ^ 54 :: real) * 20\<rfloor> = 8"
  by simp_all

lemma floor_scaled_half_Suc:
  shows "floor_scaled (1 / 2) (Suc (Suc (Suc 0))) = 1"
    and "floor_scaled (1 / 2) (Suc (Suc (Suc (Suc (Suc (Suc (Suc (Suc 0)))))))) = 4"
proof -
  have "Suc (Suc (Suc 0)) = 3" and "Suc (Suc (Suc (Suc (Suc (Suc (Suc (Suc 0))))))) = 8"
    by simp_all
  then show "floor_scaled (1 / 2) (Suc (Suc (Suc 0))) = 1"
    and "floor_scaled (1 / 2) (Suc (Suc (Suc (Suc (Suc (Suc (Suc (Suc 0)))))))) = 4"
    by (simp_all only: floor_scaled_examples)
qed

lemma is_double_half: "is_double (1 / 2)"
  by code_simp

lemma unit_draws_demo: "unit_draws demo_env"
  by (simp add: unit_draws_def demo_env_def is_double_half)

lemma unit_draws_index:
  "unit_draws e \<Longrightarrow> xs \<noteq> [] \<Longrightarrow>
   js_index xs (floor_scaled (random e i) (length xs)) = Some (xs ! floor_scaled (random e i) (length xs))
   \<and> floor_scaled (random e i) (length xs) < length xs"
  using floor_scaled_less [of "random e i" "length xs"] double_below_one [of "random e i"]
  by (simp add: unit_draws_def js_index_def)

subsection \<open>Sampling sentences\<close>

lemma pick_loop_result:
  "fst (pick_loop ss limit i out e) =
     out @ map (\<lambda>j. js_index ss (floor_scaled (random e j) (length ss))) [0..<limit - i]"
proof (induction ss limit i out e rule: pick_loop.induct)
  case (1 ss limit i out e)
  show ?case
  proof (cases "i < limit")
    case True
    then obtain m where m: "limit - i = Suc m" "limit - (i + 1) = m"
      by (metis Suc_diff_Suc add.commute plus_1_eq_Suc)
    have "fst (pick_loop ss limit i out e) =
        fst (pick_loop ss limit (i + 1)
               (out @ [js_index ss (floor_scaled (random e 0) (length ss))]) (snd (math_random e)))"
      using True by (subst pick_loop.simps) (simp add: math_random_def)
    also have "\<dots> = (out @ [js_index ss (floor_scaled (random e 0) (length ss))]) @
        map (\<lambda>j. js_index ss (floor_scaled (random (snd (math_random e)) j) (length ss))) [0..<m]"
      using "1.IH" True m by (simp add: math_random_def)
    also have "\<dots> = out @ map (\<lambda>j. js_index ss (floor_scaled (random e j) (length ss))) [0..<Suc m]"
      by (simp add: math_random_def map_upt_Suc del: upt_Suc)
    finally show ?thesis using m by simp
  next
    case False
    then show ?thesis by (subst pick_loop.simps) simp
  qed
qed

lemma pickSentences_nonempty:
  "ss \<noteq> [] \<Longrightarrow>
   fst (pickSentences (Some ss) limit e) =
     map (\<lambda>j. js_index ss (floor_scaled (random e j) (length ss))) [0..<limit]"
  by (simp add: pickSentences_def pick_loop_result)

text \<open>
  C1: for a non-empty list of sentences and a random source whose draws are doubles in
  \<open>[0, 1)\<close>, \<open>pickSentences\<close> returns exactly \<open>limit\<close> elements, each an element of the
  list. The \<open>i\<close>-th element is chosen by the \<open>i\<close>-th draw alone, from the whole list (with
  replacement): it is the element at \<^verbatim>\<open>Math.floor(r * length)\<close>, and that index \<open>j\<close> is the
  floor of the product up to one rounding, so that the draws choosing \<open>j\<close> lie between
  \<open>j / length\<close> and \<open>(j + 1) / length\<close> within the fraction \<open>1 / 2 ^ 53\<close> (how the draws
  themselves are distributed is a matter of \<^verbatim>\<open>Math.random\<close>). For an empty or a missing
  list the result is the one placeholder sentence, whatever the limit.
\<close>

theorem pickSentences_sample:
  "fst (pickSentences None limit e) = [Some ''No content to generate from.'']
   \<and> fst (pickSentences (Some []) limit e) = [Some ''No content to generate from.'']
   \<and> (ss \<noteq> [] \<and> unit_draws e \<longrightarrow>
        length (fst (pickSentences (Some ss) limit e)) = limit
        \<and> (\<forall>x \<in> set (fst (pickSentences (Some ss) limit e)). \<exists>s \<in> set ss. x = Some s)
        \<and> (\<forall>i < limit. fst (pickSentences (Some ss) limit e) ! i
               = Some (ss ! floor_scaled (random e i) (length ss))
               \<and> floor_scaled (random e i) (length ss) < length ss)
        \<and> (\<forall>i j. floor_scaled (random e i) (length ss) = j \<longrightarrow>
               real j \<le> random e i * real (length ss) * (1 + 1 / 2 ^ 53)
               \<and> random e i * real (length ss) * (1 - 1 / 2 ^ 53) < real j + 1))"
proof -
  have "length (fst (pickSentences (Some ss) limit e)) = limit" if "ss \<noteq> []"
    using that by (simp add: pickSentences_nonempty)
  moreover have "\<exists>s \<in> set ss. x = Some s"
    if "ss \<noteq> []" "unit_draws e" "x \<in> set (fst (pickSentences (Some ss) limit e))" for x
  proof -
    from that obtain j where "x = js_index ss (floor_scaled (random e j) (length ss))"
      by (auto simp: pickSentences_nonempty)
    with unit_draws_index [OF that(2,1), of j] show ?thesis
      by (metis nth_mem)
  qed
  moreover have "fst (pickSentences (Some ss) limit e) ! i
      = Some (ss ! floor_scaled (random e i) (length ss))
      \<and> floor_scaled (random e i) (length ss) < length ss"
    if "ss \<noteq> []" "unit_draws e" "i < limit" for i
    using that unit_draws_index [OF that(2,1), of i] by (simp add: pickSentences_nonempty)
  moreover have "real j \<le> random e i * real (length ss) * (1 + 1 / 2 ^ 53)
      \<and> random e i * real (length ss) * (1 - 1 / 2 ^ 53) < real j + 1"
    if "unit_draws e" "floor_scaled (random e i) (length ss) = j" for i j
  proof -
    from that(1) have "0 \<le> random e i" by (simp add: unit_draws_def)
    from floor_scaled_near [OF this that(2)] show ?thesis by simp
  qed
  ultimately show ?thesis
    by (simp add: pickSentences_def)
qed

theorem pickSentences_sample_witness:
  "unit_draws demo_env
   \<and> length (fst (pickSentences (Some [''One.'', ''Two.'', ''Three.'']) 4 demo_env)) = 4
   \<and> fst (pickSentences (Some [''One.'', ''Two.'', ''Three.'']) 4 demo_env) ! 3 = Some ''Two.''"
proof -
  have r: "random demo_env i = 1 / 2" for i
    by (simp add: demo_env_def)
  from pickSentences_sample [of 4 demo_env "[''One.'', ''Two.'', ''Three.'']"] unit_draws_demo
  show ?thesis by (simp add: r floor_scaled_examples)
qed

subsection \<open>Distractors and items\<close>









subsection \<open>The items of a generated assessment\<close>

lemma extractSentences_example:
  "extractSentences ''Hello world. This Is Fine! Next one?''
     = [''Hello world.'', ''This Is Fine!'', ''Next one?'']"
  by code_simp









subsection \<open>An unknown document\<close>

text \<open>
  C8: when no stored document has the given id, \<open>generateAssessmentFromDoc\<close> returns the
  state as it was (route, profile, documents, assessments and progress data), and reads
  neither the random source nor the clock.
\<close>

theorem generate_unknown_doc_noop:
  "\<forall>d \<in> set (documents st). doc_id d \<noteq> did \<Longrightarrow>
   generateAssessmentFromDoc did type limit e st = (st, e)"
proof -
  assume "\<forall>d \<in> set (documents st). doc_id d \<noteq> did"
  then have "find (\<lambda>d. doc_id d = did) (documents st) = None"
    by (simp add: find_None_iff)
  then show ?thesis by (simp add: generateAssessmentFromDoc_def)
qed

theorem generate_unknown_doc_noop_witness:
  "map doc_id (documents demo_state) = [7]
   \<and> generateAssessmentFromDoc 8 ''mcq'' 4 demo_env demo_state = (demo_state, demo_env)"
proof -
  have ids: "map doc_id (documents demo_state) = [7]"
    by (simp add: demo_state_def demo_doc_def)
  then have h: "\<forall>d \<in> set (documents demo_state). doc_id d \<noteq> 8"
    by (simp add: demo_state_def)
  from ids generate_unknown_doc_noop [OF h] show ?thesis by simp
qed

subsection \<open>Simulated progress\<close>

lemma markAssessmentProgress_nonempty:
  assumes "unit_draws e" "progressData st \<noteq> []"
  shows "markAssessmentProgress aid e st =
     Inr (st\<lparr>progressData := (progressData st)
              [floor_scaled (random e 0) (length (progressData st)) :=
                 (progressData st ! floor_scaled (random e 0) (length (progressData st)))
                   \<lparr>score := min 100 (score (progressData st ! floor_scaled (random e 0) (length (progressData st)))
                                     + int (floor_scaled (random e 1) 20))\<rparr>]\<rparr>,
          e\<lparr>random := (\<lambda>i. random e (Suc (Suc i)))\<rparr>)"
  using unit_draws_index [OF assms, of 0]
  by (simp add: markAssessmentProgress_def math_random_def Let_def)

lemma markAssessmentProgress_empty:
  "progressData st = [] \<Longrightarrow> markAssessmentProgress aid e st = Inl TypeError"
  by (simp add: markAssessmentProgress_def math_random_def Let_def js_index_def)

text \<open>
  C9: with draws in \<open>[0, 1)\<close>, \<open>markAssessmentProgress\<close> (whatever the assessment id) changes
  one entry of the progress data, at a random index, replacing its score by
  \<open>min 100 (score + d)\<close> for some \<open>0 \<le> d \<le> 19\<close>; the month of that entry, every other entry,
  the assessments, the documents and the profile stay as they were, and scores that were
  at most 100 still are. Only on empty progress data (which the component never holds: it
  starts from the eight sample entries and keeps their number) the handler throws before
  it sets any state.
\<close>

theorem markAssessmentProgress_frame:
  assumes "unit_draws e"
  shows "case markAssessmentProgress aid e st of
           Inl err \<Rightarrow> progressData st = []
         | Inr (st', e') \<Rightarrow>
             (\<exists>idx d. idx < length (progressData st) \<and> 0 \<le> d \<and> d \<le> 19
                \<and> progressData st' = (progressData st)
                     [idx := (progressData st ! idx)\<lparr>score := min 100 (score (progressData st ! idx) + d)\<rparr>]
                \<and> (\<forall>j < length (progressData st). j \<noteq> idx \<longrightarrow> progressData st' ! j = progressData st ! j)
                \<and> month (progressData st' ! idx) = month (progressData st ! idx))
             \<and> length (progressData st') = length (progressData st)
             \<and> assessments st' = assessments st
             \<and> documents st' = documents st
             \<and> profile st' = profile st
             \<and> ((\<forall>p \<in> set (progressData st). score p \<le> 100)
                  \<longrightarrow> (\<forall>p \<in> set (progressData st'). score p \<le> 100))"
proof (cases "progressData st = []")
  case True
  then show ?thesis by (simp add: markAssessmentProgress_empty)
next
  case False
  let ?pd = "progressData st"
  let ?idx = "floor_scaled (random e 0) (length ?pd)"
  let ?d = "int (floor_scaled (random e 1) 20)"
  let ?pd' = "?pd[?idx := (?pd ! ?idx)\<lparr>score := min 100 (score (?pd ! ?idx) + ?d)\<rparr>]"
  have idx: "?idx < length ?pd"
    using unit_draws_index [OF assms False, of 0] by simp
  have "floor_scaled (random e 1) 20 < 20"
    using assms floor_scaled_less [of "random e 1" 20] double_below_one [of "random e 1"]
    by (simp add: unit_draws_def)
  then have d: "0 \<le> ?d" "?d \<le> 19" by simp_all
  have cap: "\<forall>p \<in> set ?pd'. score p \<le> 100" if "\<forall>p \<in> set ?pd. score p \<le> 100"
  proof
    fix p assume "p \<in> set ?pd'"
    then have "p \<in> insert ((?pd ! ?idx)\<lparr>score := min 100 (score (?pd ! ?idx) + ?d)\<rparr>) (set ?pd)"
      using set_update_subset_insert by fastforce
    with that show "score p \<le> 100" by auto
  qed
  have ex: "\<exists>idx d. idx < length ?pd \<and> 0 \<le> d \<and> d \<le> 19
      \<and> ?pd' = ?pd[idx := (?pd ! idx)\<lparr>score := min 100 (score (?pd ! idx) + d)\<rparr>]
      \<and> (\<forall>j < length ?pd. j \<noteq> idx \<longrightarrow> ?pd' ! j = ?pd ! j)
      \<and> month (?pd' ! idx) = month (?pd ! idx)"
    using idx d by (intro exI [of _ ?idx] exI [of _ ?d]) simp
  show ?thesis
    using ex cap by (simp add: markAssessmentProgress_nonempty [OF assms False])
qed

lemma mark_demo:
  "map score (progressData (fst (projr (markAssessmentProgress aid demo_env demo_state))))
       = [45, 52, 58, 62, 78, 72, 75, 80]"
  "documents (fst (projr (markAssessmentProgress aid demo_env demo_state))) = [demo_doc]"
  by (simp_all add: markAssessmentProgress_def math_random_def Let_def js_index_def
      floor_scaled_examples floor_scaled_half_Suc demo_env_def demo_state_def initial_state_def
      sampleProgress_def)

theorem markAssessmentProgress_frame_witness:
  "unit_draws demo_env
   \<and> map score (progressData (fst (projr (markAssessmentProgress 1000 demo_env demo_state))))
       = [45, 52, 58, 62, 78, 72, 75, 80]
   \<and> documents (fst (projr (markAssessmentProgress 1000 demo_env demo_state))) = [demo_doc]"
  using markAssessmentProgress_frame [OF unit_draws_demo, where aid = 1000 and st = demo_state]
    unit_draws_demo mark_demo [of 1000]
  by simp

subsection \<open>Suggestions\<close>

text \<open>
  The chain of \<^verbatim>\<open>if\<close> statements of \<open>generateAISuggestions\<close> is the rule table: the
  strings of the rules that hold, in rule order, or the generic message.
\<close>

lemma toLowerCase_Nil: "toLowerCase [] = []"
  by (simp add: toLowerCase_def)

lemma generateAISuggestions_suggest:
  "generateAISuggestions st = suggest (profile st) (length (documents st))"
  by (simp add: generateAISuggestions_def Let_def push_if_def suggest_def fired_def rules_def
      toLowerCase_Nil)

lemma lower_examples:
  "toLowerCase ''Bachelor of Science'' = ''bachelor of science''"
  "toLowerCase ''India'' = ''india''"
  "toLowerCase ''math'' = ''math''"
  "toLowerCase ''history'' = ''history''"
  "toLowerCase ''bachelor'' = ''bachelor''"
  by code_simp+

lemma rule_string_inj: "rule_string j p = rule_string k p \<Longrightarrow> j = k"
  by (cases j; cases k)
     (simp_all add: depth_advice_def problem_set_advice_def balance_advice_def upload_advice_def
        repetition_advice_def tailor_advice_def)

lemma rules_complete: "k \<in> set rules"
  by (cases k) (simp_all add: rules_def)

lemma distinct_rules: "distinct rules"
  by (simp add: rules_def)

lemma length_filter_eq_distinct:
  "x \<in> set xs \<Longrightarrow> distinct xs \<Longrightarrow> length (filter (\<lambda>y. y = x) xs) = 1"
proof (induction xs)
  case Nil
  then show ?case by simp
next
  case (Cons a xs)
  show ?case
  proof (cases "a = x")
    case True
    with Cons.prems have "filter (\<lambda>y. y = x) xs = []"
      by (auto simp: filter_empty_conv)
    with True show ?thesis by simp
  next
    case False
    with Cons show ?thesis by simp
  qed
qed

lemma fired_gain:
  assumes nk: "\<not> rule_holds k p n" and k': "rule_holds k p' n"
    and others: "\<And>j. j \<noteq> k \<Longrightarrow> rule_holds j p' n = rule_holds j p n"
    and strs: "\<And>j. j \<noteq> k \<Longrightarrow> rule_string j p' = rule_string j p"
  shows "fired p n = filter (\<lambda>s. s \<noteq> rule_string k p') (fired p' n)"
    and "rule_string k p' \<in> set (fired p' n)"
    and "rule_string k p' \<notin> set (fired p n)"
    and "length (fired p' n) = Suc (length (fired p n))"
proof -
  have sel: "(rule_holds j p' n \<and> rule_string j p' \<noteq> rule_string k p') = rule_holds j p n" for j
    using nk k' others [of j] rule_string_inj [of j p' k] by (cases "j = k") auto
  have "filter (\<lambda>s. s \<noteq> rule_string k p') (fired p' n)
      = map (\<lambda>j. rule_string j p') (filter (\<lambda>j. rule_holds j p' n \<and> rule_string j p' \<noteq> rule_string k p') rules)"
    by (simp add: fired_def filter_map o_def conj_commute)
  also have "\<dots> = map (\<lambda>j. rule_string j p') (filter (\<lambda>j. rule_holds j p n) rules)"
    by (simp only: sel)
  also have "\<dots> = map (\<lambda>j. rule_string j p) (filter (\<lambda>j. rule_holds j p n) rules)"
  proof (intro map_cong refl)
    fix j assume "j \<in> set (filter (\<lambda>j. rule_holds j p n) rules)"
    with nk have "j \<noteq> k" by auto
    then show "rule_string j p' = rule_string j p" by (rule strs)
  qed
  finally show 1: "fired p n = filter (\<lambda>s. s \<noteq> rule_string k p') (fired p' n)"
    by (simp add: fired_def)
  show 2: "rule_string k p' \<in> set (fired p' n)"
    using k' rules_complete [of k] by (auto simp: fired_def)
  show "rule_string k p' \<notin> set (fired p n)"
    by (subst 1) simp
  have "distinct (fired p' n)"
    unfolding fired_def using distinct_rules rule_string_inj
    by (auto simp: distinct_map intro!: inj_onI)
  with 2 have "length (filter (\<lambda>s. s = rule_string k p') (fired p' n)) = 1"
    by (rule length_filter_eq_distinct)
  then show "length (fired p' n) = Suc (length (fired p n))"
    using sum_length_filter_compl [of "\<lambda>s. s = rule_string k p'" "fired p' n"] by (simp add: 1)
qed

lemma documents_updateProfileField: "documents (updateProfileField f v st) = documents st"
  by (simp add: updateProfileField_def)

lemma update_other_rules:
  assumes "\<not> fires k st" "fires k (updateProfileField f v st)" "k \<noteq> Rule2" "k \<noteq> Rule4" "j \<noteq> k"
  shows "fires j (updateProfileField f v st) = fires j st"
  using assms
  by (cases k; cases j) (auto simp: fires_def updateProfileField_def Let_def split: if_splits)

lemma update_other_strings:
  assumes "\<not> fires k st" "fires k (updateProfileField f v st)" "j \<noteq> k"
  shows "rule_string j (profile (updateProfileField f v st)) = rule_string j (profile st)"
  using assms
  by (cases k; cases j) (auto simp: fires_def updateProfileField_def Let_def split: if_splits)

lemmas demo_simps = demo_state_def initial_state_def updateProfileField_def fires_def
  generateAISuggestions_suggest suggest_def fired_def rules_def lower_examples toLowerCase_Nil

text \<open>
  C3, as stated, fails in two ways. Rules 2 and 4 read the same field: an empty syllabus
  that becomes \<open>math\<close> makes rule 2 hold and rule 4 stop holding, so the upload advice
  leaves the output. And when no rule holds the output is the generic message, which
  leaves the output as soon as a rule holds.
\<close>

theorem suggestion_rule_removes_counterexample:
  "\<not> fires Rule2 initial_state
   \<and> fires Rule2 (updateProfileField ''syllabus'' ''math'' initial_state)
   \<and> upload_advice \<in> set (generateAISuggestions initial_state)
   \<and> upload_advice \<notin> set (generateAISuggestions (updateProfileField ''syllabus'' ''math'' initial_state))
   \<and> \<not> fires Rule1 (updateProfileField ''syllabus'' ''history'' initial_state)
   \<and> fires Rule1 (updateProfileField ''qualification'' ''bachelor''
        (updateProfileField ''syllabus'' ''history'' initial_state))
   \<and> no_profile_message \<in> set (generateAISuggestions (updateProfileField ''syllabus'' ''history'' initial_state))
   \<and> no_profile_message \<notin> set (generateAISuggestions (updateProfileField ''qualification'' ''bachelor''
        (updateProfileField ''syllabus'' ''history'' initial_state)))"
  by (simp add: demo_simps upload_advice_def problem_set_advice_def no_profile_message_def depth_advice_def)

text \<open>
  C3, amended: let a single profile field be changed (\<open>updateProfileField\<close>) so that the
  predicate of rule \<open>k\<close> becomes satisfied, and, for rules 2 and 4 (which both read the
  syllabus), let the other rules keep their truth values (for rules 1, 3 and 6 they
  always do; rule 5 reads no profile field). If some rule held before the change, the new
  output contains the string of rule \<open>k\<close>, the old output did not, the old output is the
  new one without that string (every other string is kept, in the same order), and the
  new output is longer by exactly one. If no rule held before, the output was the generic
  message alone and becomes the string of rule \<open>k\<close> alone.
\<close>

theorem suggestion_rule_added:
  assumes upd: "st' = updateProfileField f v st"
    and before: "\<not> fires k st" and after: "fires k st'"
    and shared: "k = Rule2 \<or> k = Rule4 \<longrightarrow> (\<forall>j. j \<noteq> k \<longrightarrow> fires j st' = fires j st)"
  shows "((\<exists>j. fires j st) \<longrightarrow>
            rule_string k (profile st') \<in> set (generateAISuggestions st')
          \<and> rule_string k (profile st') \<notin> set (generateAISuggestions st)
          \<and> generateAISuggestions st
               = filter (\<lambda>s. s \<noteq> rule_string k (profile st')) (generateAISuggestions st')
          \<and> length (generateAISuggestions st') = Suc (length (generateAISuggestions st)))
       \<and> ((\<forall>j. \<not> fires j st) \<longrightarrow>
            generateAISuggestions st = [no_profile_message]
          \<and> generateAISuggestions st' = [rule_string k (profile st')])"
proof -
  let ?n = "length (documents st)"
  have n': "length (documents st') = ?n"
    by (simp add: upd documents_updateProfileField)
  have others: "rule_holds j (profile st') ?n = rule_holds j (profile st) ?n" if "j \<noteq> k" for j
  proof (cases "k = Rule2 \<or> k = Rule4")
    case True
    from shared True that have "fires j st' = fires j st" by blast
    then show ?thesis by (simp add: fires_def n')
  next
    case False
    with update_other_rules [of k st f v j] before after that upd show ?thesis
      by (simp add: fires_def documents_updateProfileField)
  qed
  have strs: "rule_string j (profile st') = rule_string j (profile st)" if "j \<noteq> k" for j
    using update_other_strings [of k st f v j] before after that upd by simp
  have nk: "\<not> rule_holds k (profile st) ?n" and k': "rule_holds k (profile st') ?n"
    using before after by (simp_all add: fires_def n')
  note g = fired_gain [OF nk k' others strs]
  from g(2) have ne': "fired (profile st') ?n \<noteq> []" by auto
  have s': "generateAISuggestions st' = fired (profile st') ?n"
    by (simp add: generateAISuggestions_suggest suggest_def ne' n')
  have fired_case: ?thesis if "\<exists>j. fires j st"
  proof -
    from that obtain j where j: "rule_holds j (profile st) ?n" by (auto simp: fires_def)
    then have "rule_string j (profile st) \<in> set (fired (profile st) ?n)"
      using rules_complete [of j] by (auto simp: fired_def)
    then have ne: "fired (profile st) ?n \<noteq> []" by auto
    have s: "generateAISuggestions st = fired (profile st) ?n"
      by (simp add: generateAISuggestions_suggest suggest_def ne)
    have "rule_string k (profile st') \<in> set (generateAISuggestions st')"
      and "rule_string k (profile st') \<notin> set (generateAISuggestions st)"
      and "generateAISuggestions st
               = filter (\<lambda>s. s \<noteq> rule_string k (profile st')) (generateAISuggestions st')"
      and "length (generateAISuggestions st') = Suc (length (generateAISuggestions st))"
      unfolding s s' using g by blast+
    with that show ?thesis by blast
  qed
  have none_case: ?thesis if none: "\<forall>j. \<not> fires j st"
  proof -
    from none have e: "fired (profile st) ?n = []"
      by (simp add: fired_def fires_def)
    then have s: "generateAISuggestions st = [no_profile_message]"
      by (simp add: generateAISuggestions_suggest suggest_def)
    from g(4) e have "length (fired (profile st') ?n) = 1" by simp
    with g(2) have "fired (profile st') ?n = [rule_string k (profile st')]"
      by (cases "fired (profile st') ?n") auto
    then have "generateAISuggestions st' = [rule_string k (profile st')]"
      by (simp only: s')
    with s none show ?thesis by blast
  qed
  from fired_case none_case show ?thesis by blast
qed

lemma graduate_demo:
  shows "\<not> fires Rule2 demo_graduate"
    and "fires Rule2 (updateProfileField ''syllabus'' ''math'' demo_graduate)"
    and "fires Rule1 demo_graduate"
  by (simp_all add: demo_graduate_def demo_simps)

lemma graduate_demo_others:
  "j \<noteq> Rule2 \<Longrightarrow>
   fires j (updateProfileField ''syllabus'' ''math'' demo_graduate) = fires j demo_graduate"
  by (cases j) (simp_all add: demo_graduate_def demo_simps)

theorem suggestion_rule_added_witness:
  "\<not> fires Rule1 demo_state
   \<and> fires Rule1 (updateProfileField ''qualification'' ''bachelor'' demo_state)
   \<and> fires Rule4 demo_state
   \<and> generateAISuggestions demo_state
        = filter (\<lambda>s. s \<noteq> depth_advice)
            (generateAISuggestions (updateProfileField ''qualification'' ''bachelor'' demo_state))
   \<and> \<not> fires Rule2 demo_graduate
   \<and> fires Rule2 (updateProfileField ''syllabus'' ''math'' demo_graduate)
   \<and> generateAISuggestions demo_graduate
        = filter (\<lambda>s. s \<noteq> problem_set_advice)
            (generateAISuggestions (updateProfileField ''syllabus'' ''math'' demo_graduate))"
proof -
  have a: "\<not> fires Rule1 demo_state"
    and b: "fires Rule1 (updateProfileField ''qualification'' ''bachelor'' demo_state)"
    and c: "fires Rule4 demo_state"
    by (simp_all add: demo_simps)
  have ex: "\<exists>j. fires j demo_state"
    by (rule exI [of _ Rule4]) (rule c)
  have sh: "Rule1 = Rule2 \<or> Rule1 = Rule4 \<longrightarrow> (\<forall>j. j \<noteq> Rule1 \<longrightarrow>
      fires j (updateProfileField ''qualification'' ''bachelor'' demo_state) = fires j demo_state)"
    by simp
  note t1 = suggestion_rule_added [OF refl a b sh]
  note f = t1 [THEN conjunct1, THEN mp, OF ex, THEN conjunct2, THEN conjunct2, THEN conjunct1]
  have ex2: "\<exists>j. fires j demo_graduate"
    by (rule exI [of _ Rule1]) (rule graduate_demo(3))
  have sh2: "Rule2 = Rule2 \<or> Rule2 = Rule4 \<longrightarrow> (\<forall>j. j \<noteq> Rule2 \<longrightarrow>
      fires j (updateProfileField ''syllabus'' ''math'' demo_graduate) = fires j demo_graduate)"
    by (intro allI impI) (rule graduate_demo_others)
  note t2 = suggestion_rule_added [OF refl graduate_demo(1,2) sh2]
  note g = t2 [THEN conjunct1, THEN mp, OF ex2, THEN conjunct2, THEN conjunct2, THEN conjunct1]
  show ?thesis
    using a b c f g graduate_demo(1,2) by (simp only: rule_string.simps simp_thms)
qed

text \<open>
  C7: \<open>generateAISuggestions\<close> returns the strings of the satisfied rules, one for each, in
  the order of the six rules, and the single generic message when no rule is satisfied;
  on the two profiles of the specification it returns the depth, balance and upload
  advice, and the upload and repetition advice.
\<close>

theorem generateAISuggestions_rules:
  "generateAISuggestions st = suggest (profile st) (length (documents st))
   \<and> ((\<forall>k. \<not> fires k st) \<longrightarrow> generateAISuggestions st = [no_profile_message])
   \<and> (qualification (profile st) = ''Bachelor of Science'' \<and> syllabus (profile st) = []
        \<and> nationality (profile st) = ''India'' \<and> learningStyle (profile st) = []
        \<and> length (documents st) = 0 \<longrightarrow>
        generateAISuggestions st = [depth_advice, balance_advice, upload_advice])
   \<and> (qualification (profile st) = [] \<and> syllabus (profile st) = []
        \<and> nationality (profile st) = [] \<and> learningStyle (profile st) = []
        \<and> length (documents st) = 5 \<longrightarrow>
        generateAISuggestions st = [upload_advice, repetition_advice])"
proof -
  have "generateAISuggestions st = [no_profile_message]" if "\<forall>k. \<not> fires k st"
    using that by (simp add: generateAISuggestions_suggest suggest_def fired_def fires_def)
  moreover have "generateAISuggestions st = [depth_advice, balance_advice, upload_advice]"
    if "qualification (profile st) = ''Bachelor of Science''" "syllabus (profile st) = []"
      "nationality (profile st) = ''India''" "learningStyle (profile st) = []"
      "length (documents st) = 0"
    using that
    by (simp add: generateAISuggestions_suggest suggest_def fired_def rules_def lower_examples
        toLowerCase_Nil)
  moreover have "generateAISuggestions st = [upload_advice, repetition_advice]"
    if "qualification (profile st) = []" "syllabus (profile st) = []"
      "nationality (profile st) = []" "learningStyle (profile st) = []"
      "length (documents st) = 5"
    using that
    by (simp add: generateAISuggestions_suggest suggest_def fired_def rules_def toLowerCase_Nil)
  ultimately show ?thesis
    using generateAISuggestions_suggest [of st] by blast
qed

theorem generateAISuggestions_rules_witness:
  "generateAISuggestions
     (initial_state\<lparr>profile := \<lparr>name = [], institution = [], syllabus = [],
        qualification = ''Bachelor of Science'', nationality = ''India'', learningStyle = []\<rparr>\<rparr>)
     = [depth_advice, balance_advice, upload_advice]
   \<and> generateAISuggestions (initial_state\<lparr>documents := replicate 5 demo_doc\<rparr>)
     = [upload_advice, repetition_advice]"
proof -
  let ?S1 = "initial_state\<lparr>profile := \<lparr>name = [], institution = [],
        syllabus = [], qualification = ''Bachelor of Science'', nationality = ''India'',
        learningStyle = []\<rparr>\<rparr>"
  let ?S2 = "initial_state\<lparr>documents := replicate 5 demo_doc\<rparr>"
  have h1: "qualification (profile ?S1) = ''Bachelor of Science'' \<and> syllabus (profile ?S1) = []
        \<and> nationality (profile ?S1) = ''India'' \<and> learningStyle (profile ?S1) = []
        \<and> length (documents ?S1) = 0"
    by (simp add: initial_state_def)
  have h2: "qualification (profile ?S2) = [] \<and> syllabus (profile ?S2) = []
        \<and> nationality (profile ?S2) = [] \<and> learningStyle (profile ?S2) = []
        \<and> length (documents ?S2) = 5"
    by (simp add: initial_state_def)
  from generateAISuggestions_rules [of ?S1] h1 generateAISuggestions_rules [of ?S2] h2
  show ?thesis by blast
qed

subsection \<open>The splitter cuts at sentence boundaries\<close>

text \<open>
  White space is never an upper-case letter or a digit, so giving back white space never
  helps the look-ahead: the expression matches at \<open>q\<close> exactly when the code unit before
  \<open>q\<close> ends a sentence, the white space that starts at \<open>q\<close> is not empty, and an
  upper-case letter or a digit follows it; the match is the whole run.
\<close>

lemma char_of_small:
  shows "char_of (9::nat) = CHR 0x09" and "char_of (10::nat) = CHR 0x0A"
    and "char_of (11::nat) = CHR 0x0B" and "char_of (12::nat) = CHR 0x0C"
    and "char_of (13::nat) = CHR 0x0D"
  by code_simp+

lemma white_space_eq: "white_space c = is_space c"
proof
  assume "white_space c"
  then consider "9 \<le> (of_char c :: nat) \<and> (of_char c :: nat) \<le> 13" | "c = CHR 0x20" | "c = CHR 0xA0"
    by (auto simp: white_space_def less_eq_char_def)
  then show "is_space c"
  proof cases
    case 1
    then have "(of_char c :: nat) = 9 \<or> (of_char c :: nat) = 10 \<or> (of_char c :: nat) = 11
        \<or> (of_char c :: nat) = 12 \<or> (of_char c :: nat) = 13"
      by arith
    moreover have "c = char_of (of_char c :: nat)" by simp
    ultimately have "c = CHR 0x09 \<or> c = CHR 0x0A \<or> c = CHR 0x0B \<or> c = CHR 0x0C \<or> c = CHR 0x0D"
      using char_of_small by metis
    then show ?thesis by (auto simp: is_space_def)
  next
    case 2
    then show ?thesis by (simp add: is_space_def)
  next
    case 3
    then show ?thesis by (simp add: is_space_def)
  qed
next
  assume "is_space c"
  then show "white_space c"
    by (auto simp: is_space_def white_space_def less_eq_char_def)
qed

lemma sentence_end_eq: "sentence_end c = is_terminator c"
  by (auto simp: sentence_end_def is_terminator_def)

lemma capital_or_digit_eq: "(ascii_capital c \<or> digit c) = is_upper_or_digit c"
  by (simp add: ascii_capital_def digit_def is_upper_or_digit_def in_range_def code_unit_def
      less_eq_char_def)

lemma strip_left_eq: "strip_left s = dropWhile is_space s"
  by (induction s) (simp_all add: white_space_eq)

lemma strip_eq: "strip s = trim s"
  by (simp add: strip_def trim_def strip_left_eq)

lemma breaks_to_spaces_eq: "breaks_to_spaces line_feed text = replace_newlines text"
  by (induction "text") (simp_all add: replace_newlines_def line_feed_def)

lemma space_not_upper_or_digit: "is_space c \<Longrightarrow> \<not> is_upper_or_digit c"
  by (auto simp: is_space_def is_upper_or_digit_def in_range_def code_unit_def)

lemma dropWhile_space_drop: "dropWhile is_space (drop q S) = drop (q + space_run S q) S"
  by (simp add: space_run_def dropWhile_eq_drop add.commute)

lemma space_run_bound: "q + space_run S q \<le> length S" if "q \<le> length S"
proof -
  have "space_run S q \<le> length (drop q S)"
    unfolding space_run_def by (rule length_takeWhile_le)
  with that show ?thesis by simp
qed

lemma space_run_is_space:
  assumes "k < space_run S q"
  shows "q + k < length S \<and> is_space (S ! (q + k))"
proof -
  let ?t = "takeWhile is_space (drop q S)"
  from assms have k: "k < length ?t" by (simp add: space_run_def)
  then have "?t ! k \<in> set ?t" by simp
  then have sp: "is_space (?t ! k)" by (rule set_takeWhileD [THEN conjunct2])
  have "length ?t \<le> length (drop q S)" by (rule length_takeWhile_le)
  with k have lt: "q + k < length S" by simp
  from k have "?t ! k = drop q S ! k" by (rule takeWhile_nth)
  also have "\<dots> = S ! (q + k)" using lt by simp
  finally show ?thesis using sp lt by simp
qed

lemma space_run_pos_iff:
  "0 < space_run S q \<longleftrightarrow> q < length S \<and> is_space (S ! q)"
proof
  assume "0 < space_run S q"
  from space_run_is_space [OF this] show "q < length S \<and> is_space (S ! q)" by simp
next
  assume a: "q < length S \<and> is_space (S ! q)"
  then have "drop q S = S ! q # drop (Suc q) S" by (simp add: Cons_nth_drop_Suc)
  with a show "0 < space_run S q" by (simp add: space_run_def)
qed

lemma find_backtrack:
  "find (\<lambda>k. lookahead S (q + k)) (rev [1..<space_run S q + 1]) =
     (if 0 < space_run S q \<and> lookahead S (q + space_run S q) then Some (space_run S q) else None)"
proof (cases "0 < space_run S q")
  case False
  then show ?thesis by simp
next
  case True
  have none: "find (\<lambda>k. lookahead S (q + k)) (rev [1..<space_run S q]) = None"
  proof -
    have "\<not> lookahead S (q + k)" if "k < space_run S q" for k
      using space_run_is_space [OF that] space_not_upper_or_digit by (simp add: lookahead_def)
    then show ?thesis by (simp add: find_None_iff)
  qed
  from True have "rev [1..<space_run S q + 1] = space_run S q # rev [1..<space_run S q]"
    by simp
  with none True show ?thesis by simp
qed

lemma match_at_eq:
  "match_at S q =
     (if lookbehind S q \<and> 0 < space_run S q \<and> lookahead S (q + space_run S q)
      then Some (q + space_run S q) else None)"
  unfolding match_at_def find_backtrack by auto

lemma boundary_follows_drop:
  "boundary_follows (\<lambda>c. ascii_capital c \<or> digit c) (drop q S)
     \<longleftrightarrow> 0 < space_run S q \<and> lookahead S (q + space_run S q)"
proof (cases "q < length S")
  case False
  then have "space_run S q = 0" by (simp add: space_run_def)
  with False show ?thesis by (simp add: boundary_follows_def)
next
  case True
  then have d: "drop q S = S ! q # drop (Suc q) S" by (simp add: Cons_nth_drop_Suc)
  have pos: "0 < space_run S q \<longleftrightarrow> is_space (S ! q)"
    using True by (simp add: space_run_pos_iff)
  have la: "(case strip_left (drop q S) of [] \<Rightarrow> False | d # _ \<Rightarrow> ascii_capital d \<or> digit d)
      \<longleftrightarrow> lookahead S (q + space_run S q)"
  proof (cases "q + space_run S q < length S")
    case True
    then have "drop (q + space_run S q) S = S ! (q + space_run S q) # drop (Suc (q + space_run S q)) S"
      by (simp add: Cons_nth_drop_Suc)
    with True show ?thesis
      by (simp add: strip_left_eq dropWhile_space_drop lookahead_def capital_or_digit_eq)
  next
    case False
    then show ?thesis by (simp add: strip_left_eq dropWhile_space_drop lookahead_def)
  qed
  have "boundary_follows (\<lambda>c. ascii_capital c \<or> digit c) (drop q S) \<longleftrightarrow> is_space (S ! q) \<and>
      (case strip_left (drop q S) of [] \<Rightarrow> False | d # _ \<Rightarrow> ascii_capital d \<or> digit d)"
    unfolding boundary_follows_def by (subst (1) d) (simp add: white_space_eq)
  with pos la show ?thesis by simp
qed

lemma match_at_after_run:
  assumes "lookahead S e"
  shows "match_at S e = None"
proof -
  from assms have "\<not> is_space (S ! e)"
    using space_not_upper_or_digit by (auto simp: lookahead_def)
  then have "\<not> 0 < space_run S e" by (simp add: space_run_pos_iff)
  then show ?thesis by (simp add: match_at_eq)
qed

lemma substring_Suc:
  "p \<le> q \<Longrightarrow> q < length S \<Longrightarrow> substring S p q @ [S ! q] = substring S p (Suc q)"
  by (simp add: substring_def Suc_diff_le take_Suc_conv_app_nth)

lemma split_loop_cut:
  "p \<le> q \<Longrightarrow> q \<le> length S \<Longrightarrow> match_at S q = None \<Longrightarrow>
   split_loop S p q A = A @ cut_sentences (\<lambda>c. ascii_capital c \<or> digit c) (substring S p q) (drop q S)"
proof (induction "length S - q" arbitrary: p q A rule: less_induct)
  case less
  show ?case
  proof (cases "q < length S")
    case False
    with less.prems have "q = length S" by simp
    then show ?thesis by (subst split_loop.simps) simp
  next
    case True
    then have d: "drop q S = S ! q # drop (Suc q) S" by (simp add: Cons_nth_drop_Suc)
    have step: "split_loop S p q A = split_loop S p (Suc q) A"
      using True less.prems(3) by (subst split_loop.simps) simp
    have lb: "lookbehind S (Suc q) \<longleftrightarrow> is_terminator (S ! q)"
      using True by (simp add: lookbehind_def)
    show ?thesis
    proof (cases "is_terminator (S ! q) \<and> boundary_follows (\<lambda>c. ascii_capital c \<or> digit c) (drop (Suc q) S)")
      case False
      then have m: "match_at S (Suc q) = None"
        by (auto simp: match_at_eq lb boundary_follows_drop)
      have "split_loop S p (Suc q) A = A @ cut_sentences (\<lambda>c. ascii_capital c \<or> digit c) (substring S p (Suc q)) (drop (Suc q) S)"
        using less.hyps [of "Suc q" p A] True less.prems(1) m by simp
      with False show ?thesis
        using less.prems(1) True by (auto simp add: step d substring_Suc sentence_end_eq)
    next
      case b: True
      let ?e = "Suc q + space_run S (Suc q)"
      from b have run: "0 < space_run S (Suc q)" and la: "lookahead S ?e"
        by (simp_all add: boundary_follows_drop)
      then have m: "match_at S (Suc q) = Some ?e"
        using b by (simp add: match_at_eq lb)
      from la have e: "?e < length S" by (simp add: lookahead_def)
      then have sq: "Suc q < length S" by simp
      have "?e \<noteq> p" using less.prems(1) by simp
      then have "split_loop S p (Suc q) A = split_loop S ?e ?e (A @ [substring S p (Suc q)])"
        using sq m by (subst split_loop.simps) simp
      also have "\<dots> = (A @ [substring S p (Suc q)]) @ cut_sentences (\<lambda>c. ascii_capital c \<or> digit c) (substring S ?e ?e) (drop ?e S)"
        using less.hyps [of ?e ?e "A @ [substring S p (Suc q)]"] e match_at_after_run [OF la] True
        by simp
      also have "\<dots> = A @ substring S p (Suc q) # cut_sentences (\<lambda>c. ascii_capital c \<or> digit c) [] (strip_left (drop (Suc q) S))"
        by (simp add: substring_def dropWhile_space_drop strip_left_eq)
      finally show ?thesis
        using b less.prems(1) True by (simp add: step d substring_Suc sentence_end_eq)
    qed
  qed
qed

lemma match_at_0: "match_at S 0 = None"
  by (simp add: match_at_def lookbehind_def)

lemma split_cut: "split S = cut_sentences (\<lambda>c. ascii_capital c \<or> digit c) [] S"
proof (cases "S = []")
  case True
  then show ?thesis by (simp add: split_def match_at_0)
next
  case False
  then show ?thesis
    using split_loop_cut [of 0 0 S "[]"] by (simp add: split_def match_at_0 substring_def)
qed

lemma extractSentences_sentences_of: "extractSentences text = sentences_of text"
proof (cases "text = []")
  case True
  then show ?thesis
    by (simp add: extractSentences_def sentences_of_def strip_def)
next
  case False
  then show ?thesis
    by (simp add: extractSentences_def sentences_of_def split_cut strip_eq [abs_def] breaks_to_spaces_eq)
qed



lemma strip_left_hd: "strip_left s \<noteq> [] \<Longrightarrow> \<not> white_space (hd (strip_left s))"
  by (induction s) auto

lemma strip_left_last: "strip_left s \<noteq> [] \<Longrightarrow> last (strip_left s) = last s"
  by (induction s) auto

lemma set_strip_left: "set (strip_left s) \<subseteq> set s"
  by (induction s) auto

lemma strip_ends:
  assumes "strip s \<noteq> []"
  shows "\<not> white_space (hd (strip s))" and "\<not> white_space (last (strip s))"
proof -
  let ?t = "strip_left (rev (strip_left s))"
  from assms have t: "?t \<noteq> []" by (simp add: strip_def)
  then have r: "rev (strip_left s) \<noteq> []" by auto
  have "hd (strip s) = last ?t" using t by (simp add: strip_def hd_rev)
  also have "\<dots> = last (rev (strip_left s))" using t by (rule strip_left_last)
  also have "\<dots> = hd (strip_left s)" using r by (simp add: last_rev)
  finally have "hd (strip s) = hd (strip_left s)" .
  moreover have "\<not> white_space (hd (strip_left s))" using r by (intro strip_left_hd) simp
  ultimately show "\<not> white_space (hd (strip s))" by simp
  have "last (strip s) = hd ?t" using t by (simp add: strip_def last_rev)
  with strip_left_hd [OF t] show "\<not> white_space (last (strip s))" by simp
qed

lemma set_strip: "set (strip s) \<subseteq> set s"
proof -
  have "set (strip s) = set (strip_left (rev (strip_left s)))" by (simp add: strip_def)
  also have "\<dots> \<subseteq> set (rev (strip_left s))" by (rule set_strip_left)
  also have "\<dots> \<subseteq> set s" using set_strip_left [of s] by simp
  finally show ?thesis .
qed

lemma set_cut_sentences:
  "p \<in> set (cut_sentences starts cur cs) \<Longrightarrow> set p \<subseteq> set cur \<union> set cs"
proof (induction starts cur cs arbitrary: p rule: cut_sentences.induct)
  case (1 starts cur)
  then show ?case by simp
next
  case (2 starts cur c cs)
  show ?case
  proof (cases "sentence_end c \<and> boundary_follows starts cs")
    case True
    with "2.prems" have "p = cur @ [c] \<or> p \<in> set (cut_sentences starts [] (strip_left cs))"
      by simp
    then show ?thesis
    proof
      assume "p = cur @ [c]"
      then show ?thesis by auto
    next
      assume "p \<in> set (cut_sentences starts [] (strip_left cs))"
      from "2.IH"(1) [OF True this] set_strip_left [of cs] show ?thesis by auto
    qed
  next
    case False
    with "2.prems" have "p \<in> set (cut_sentences starts (cur @ [c]) cs)" by auto
    from "2.IH"(2) [OF False this] show ?thesis by auto
  qed
qed

lemma breaks_to_spaces_free: "c \<in> set (breaks_to_spaces br text) \<Longrightarrow> \<not> br c \<or> c = CHR '' ''"
  by (induction "text") (auto split: if_splits)

lemma sentences_of_shape:
  assumes "s \<in> set (sentences_of text)"
  shows "s \<noteq> []" and "\<not> white_space (hd s)" and "\<not> white_space (last s)"
    and "CHR 0x0A \<notin> set s"
proof -
  from assms obtain p
    where p: "p \<in> set (cut_sentences (\<lambda>c. ascii_capital c \<or> digit c) [] (breaks_to_spaces line_feed text))"
      and s: "s = strip p" and ne: "s \<noteq> []"
    by (auto simp: sentences_of_def)
  show "s \<noteq> []" by (rule ne)
  from strip_ends [of p] s ne show "\<not> white_space (hd s)" and "\<not> white_space (last s)"
    by simp_all
  show "CHR 0x0A \<notin> set s"
  proof
    assume "CHR 0x0A \<in> set s"
    with s set_strip [of p] set_cut_sentences [OF p]
    have "CHR 0x0A \<in> set (breaks_to_spaces line_feed text)" by auto
    from breaks_to_spaces_free [OF this] show False by (simp add: line_feed_def)
  qed
qed

lemma extractSentences_trimmed_example:
  "extractSentences (''  One is'' @ [CHR 0x0A] @ ''here.'' @ [CHR 0x0A, CHR 0x0A] @ ''2 of them?   '')
     = [''One is here.'', ''2 of them?'']"
  by code_simp

text \<open>
  C5, as stated, fails: the expression looks for \<open>A\<close> to \<open>Z\<close> and \<open>0\<close> to \<open>9\<close> only, so no
  sentence begins at an accented capital (U+00C9 below), and only the line feed is
  replaced, so a carriage return stays in its sentence.
\<close>

theorem extractSentences_accented_counterexample:
  "described_sentences (''Fin. '' @ [CHR 0xC9] @ ''cole'') = [''Fin.'', [CHR 0xC9] @ ''cole'']
   \<and> extractSentences (''Fin. '' @ [CHR 0xC9] @ ''cole'') = [''Fin. '' @ [CHR 0xC9] @ ''cole'']
   \<and> described_sentences (''a'' @ [CHR 0x0D] @ ''b'') = [''a b'']
   \<and> extractSentences (''a'' @ [CHR 0x0D] @ ''b'') = [''a'' @ [CHR 0x0D] @ ''b'']"
  by code_simp

text \<open>
  C5, amended: \<open>extractSentences\<close> replaces every line feed by a space, cuts the text at
  every place where \<open>.\<close>, \<open>?\<close> or \<open>!\<close> is followed by white space and then by a letter \<open>A\<close> to
  \<open>Z\<close> or a digit \<open>0\<close> to \<open>9\<close> (the white space belongs to no piece), trims the pieces and
  drops the empty ones. So every sentence it returns is non-empty, begins and ends with a
  character that is not white space, and holds no line feed; and the example of the
  specification gives its three sentences.
\<close>

theorem extractSentences_boundaries:
  "extractSentences text = sentences_of text
   \<and> (\<forall>s \<in> set (extractSentences text).
         s \<noteq> [] \<and> \<not> white_space (hd s) \<and> \<not> white_space (last s) \<and> CHR 0x0A \<notin> set s)
   \<and> extractSentences ''Hello world. This Is Fine! Next one?''
        = [''Hello world.'', ''This Is Fine!'', ''Next one?'']"
proof -
  have eq: "extractSentences text = sentences_of text"
    by (rule extractSentences_sentences_of)
  have "s \<noteq> [] \<and> \<not> white_space (hd s) \<and> \<not> white_space (last s) \<and> CHR 0x0A \<notin> set s"
    if "s \<in> set (sentences_of text)" for s
    using sentences_of_shape [OF that] by simp
  with eq extractSentences_example show ?thesis by simp
qed

theorem extractSentences_boundaries_witness:
  "sentences_of (''  One is'' @ [CHR 0x0A] @ ''here.'' @ [CHR 0x0A, CHR 0x0A] @ ''2 of them?   '')
     = [''One is here.'', ''2 of them?'']
   \<and> list_all (\<lambda>s. s \<noteq> [] \<and> \<not> white_space (hd s) \<and> \<not> white_space (last s) \<and> CHR 0x0A \<notin> set s)
        (extractSentences (''  One is'' @ [CHR 0x0A] @ ''here.'' @ [CHR 0x0A, CHR 0x0A] @ ''2 of them?   ''))"
proof -
  let ?T = "''  One is'' @ [CHR 0x0A] @ ''here.'' @ [CHR 0x0A, CHR 0x0A] @ ''2 of them?   ''"
  note t = extractSentences_boundaries [of ?T]
  from t have "extractSentences ?T = sentences_of ?T" by (rule conjunct1)
  with extractSentences_trimmed_example have 1: "sentences_of ?T = [''One is here.'', ''2 of them?'']"
    by (simp only:)
  from t have "\<forall>s \<in> set (extractSentences ?T).
      s \<noteq> [] \<and> \<not> white_space (hd s) \<and> \<not> white_space (last s) \<and> CHR 0x0A \<notin> set s"
    by (rule conjunct2 [THEN conjunct1])
  then have 2: "list_all (\<lambda>s. s \<noteq> [] \<and> \<not> white_space (hd s) \<and> \<not> white_space (last s) \<and> CHR 0x0A \<notin> set s)
        (extractSentences ?T)"
    by (simp only: list_all_iff)
  from 1 2 show ?thesis by (rule conjI)
qed

end
